theory Spec2Isabelle
  imports Main "HOL-Library.Word"
begin

unbundle bit_operations_syntax

section \<open>Basic types\<close>

text \<open>
  Go's \<open>int64\<close> is a 64-bit word; \<open>+\<close>, \<open>-\<close> and \<open>*\<close> wrap, and every comparison of
  the sources is the signed one, written here through \<open>sint\<close>.  A Go \<open>byte\<close> is an 8-bit
  value, which is what a HOL \<open>char\<close> is, so a byte slice and a Go string are both a
  \<open>string\<close>.  The platform is taken to be a 64-bit one: \<open>int\<close> and \<open>int64\<close> hold the
  same values, and \<open>len(buf)\<close> is below \<open>2 ^ 63\<close>.
\<close>

type_synonym int64 = "64 word"

definition SECTOR_SIZE :: int64 where
  "SECTOR_SIZE = 512"

definition SPARSE_MAGICNUMBER :: "32 word" where
  "SPARSE_MAGICNUMBER = 0x564d444b"

text \<open>
  Go errors.  \<open>EOF\<close> is \<open>io.EOF\<close>; \<open>ErrorString m\<close> is \<open>errors.New(m)\<close> and stands for any
  other plain error a reader or the opener hands back; \<open>NumError s\<close> is the error of
  \<open>strconv.ParseInt\<close> for the text \<open>s\<close>; \<open>WrapError p e\<close> is \<open>fmt.Errorf(p + ": %w", e)\<close>.
\<close>

datatype error = EOF | ErrorString string | NumError string | WrapError string error

text \<open>The run-time panics the modelled code can raise.\<close>

datatype panic =
    SliceBoundsOutOfRange
  | MakeSliceLenOutOfRange
  | InvalidInteger string

datatype fault = Error error | Panic panic

text \<open>
  An \<open>io.ReaderAt\<close>.  \<open>ReadAt(p, off)\<close> is given the length of \<open>p\<close> and the offset, and
  answers with the bytes it stored at the front of \<open>p\<close> (their number is the \<open>n\<close> of the Go
  call) and the error.  The interface promises \<open>0 \<le> n \<le> len(p)\<close>; \<open>call_ReadAt\<close> cuts the
  answer to that length.  Bytes of \<open>p\<close> beyond \<open>n\<close> keep their value.
\<close>

type_synonym ReaderAt = "nat \<Rightarrow> int64 \<Rightarrow> string \<times> error option"

definition call_ReadAt :: "ReaderAt \<Rightarrow> nat \<Rightarrow> int64 \<Rightarrow> string \<times> error option" where
  "call_ReadAt r len off = (case r len off of (d, e) \<Rightarrow> (take len d, e))"

text \<open>
  A closer is a \<open>func()\<close> whose only effect is to release one resource; it is named by
  the handle it releases, and \<open>None\<close> is the nil func.
\<close>

type_synonym closer = nat

section \<open>Flat extents (parser/flat\_extent.go)\<close>

text \<open>The \<open>Profile\<close> pointers are never read by the modelled code and are left out.\<close>

record FlatExtentHeader =
  Reader :: ReaderAt
  Offset :: int64

record FlatExtent =
  fe_reader :: ReaderAt
  fe_header :: FlatExtentHeader
  fe_total_size :: int64
  fe_offset :: int64
  fe_filename :: string
  fe_closer :: "closer option"

definition GetFlatExtent ::
  "ReaderAt \<Rightarrow> string \<Rightarrow> int64 \<Rightarrow> int64 \<Rightarrow> int64 \<Rightarrow> closer option \<Rightarrow> error + FlatExtent" where
  "GetFlatExtent rd fname offsetSectors sectors virtualOffset cl =
     (let flatExtentHeader = \<lparr> Reader = rd, Offset = offsetSectors * SECTOR_SIZE \<rparr>
      in Inr \<lparr> fe_reader = rd,
               fe_header = flatExtentHeader,
               fe_total_size = sectors * SECTOR_SIZE,
               fe_offset = virtualOffset,
               fe_filename = fname,
               fe_closer = cl \<rparr>)"

text \<open>
  \<open>FlatExtent.ReadAt(buf, offset)\<close>, with \<open>len\<close> the length of \<open>buf\<close>.  \<open>buf[:toRead]\<close> cannot
  panic: \<open>toRead\<close> is \<open>len(buf)\<close> or the positive \<open>total_size - offset\<close> below it.
\<close>

definition FlatExtent_ReadAt :: "FlatExtent \<Rightarrow> nat \<Rightarrow> int64 \<Rightarrow> string \<times> error option" where
  "FlatExtent_ReadAt self len off =
     (if sint off < 0 \<or> sint (fe_total_size self) \<le> sint off then ([], Some EOF)
      else
        let toRead0 = (of_nat len :: int64);
            toRead = (if sint (fe_total_size self) < sint (off + toRead0)
                      then fe_total_size self - off else toRead0);
            fileOffset = Offset (fe_header self) + off
        in call_ReadAt (fe_reader self) (nat (sint toRead)) fileOffset)"

text \<open>\<open>FlatExtent.Close\<close>: the closers run so far are the state.\<close>

definition FlatExtent_Close :: "FlatExtent \<Rightarrow> closer list \<Rightarrow> closer list" where
  "FlatExtent_Close self tr =
     (case fe_closer self of None \<Rightarrow> tr | Some c \<Rightarrow> tr @ [c])"

definition FlatExtent_TotalSize :: "FlatExtent \<Rightarrow> int64" where
  "FlatExtent_TotalSize self = fe_total_size self"

definition FlatExtent_VirtualOffset :: "FlatExtent \<Rightarrow> int64" where
  "FlatExtent_VirtualOffset self = fe_offset self"

section \<open>Sparse and null extents\<close>

text \<open>
  \<open>parser/sparse_extent.go\<close> is not among the sources.  \<open>context.go\<close> reads and writes
  four fields of a \<open>SparseExtent\<close> (\<open>offset\<close>, \<open>total_size\<close>, \<open>closer\<close>, \<open>filename\<close>); whatever
  else the struct holds is the component \<open>se_rest\<close> of an arbitrary type \<open>'p\<close>.  A
  \<open>NullExtent\<close> embeds a \<open>SparseExtent\<close>.
\<close>

record 'p SparseExtent =
  se_offset :: int64
  se_total_size :: int64
  se_closer :: "closer option"
  se_filename :: string
  se_rest :: 'p

text \<open>
  The functions of the missing file that \<open>context.go\<close> calls are parameters of the model:
  the constructor, the two \<open>ReadAt\<close> methods (answering like a reader), the two \<open>Close\<close>
  methods (answering with the closers they run, in order), and the zero value of the
  fields \<open>context.go\<close> does not name.
\<close>

record 'p SparseCode =
  GetSparseExtent :: "ReaderAt \<Rightarrow> error + 'p SparseExtent"
  SparseExtent_ReadAt :: "'p SparseExtent \<Rightarrow> nat \<Rightarrow> int64 \<Rightarrow> string \<times> error option"
  SparseExtent_Close :: "'p SparseExtent \<Rightarrow> closer list"
  NullExtent_ReadAt :: "'p SparseExtent \<Rightarrow> nat \<Rightarrow> int64 \<Rightarrow> string \<times> error option"
  NullExtent_Close :: "'p SparseExtent \<Rightarrow> closer list"
  zero_rest :: 'p

section \<open>The Extent interface\<close>

datatype 'p Extent = Flat FlatExtent | Sparse "'p SparseExtent" | Null "'p SparseExtent"

text \<open>
  Modelled from the spec: \<open>VirtualOffset\<close> and \<open>TotalSize\<close> of a sparse or null extent
  (methods of the missing \<open>sparse_extent.go\<close>) answer the \<open>offset\<close> and \<open>total_size\<close> fields,
  as the spec's data model says of every variant and as \<open>FlatExtent\<close> does.
\<close>

fun Extent_VirtualOffset :: "'p Extent \<Rightarrow> int64" where
  "Extent_VirtualOffset (Flat f) = FlatExtent_VirtualOffset f"
| "Extent_VirtualOffset (Sparse s) = se_offset s"
| "Extent_VirtualOffset (Null s) = se_offset s"

fun Extent_TotalSize :: "'p Extent \<Rightarrow> int64" where
  "Extent_TotalSize (Flat f) = FlatExtent_TotalSize f"
| "Extent_TotalSize (Sparse s) = se_total_size s"
| "Extent_TotalSize (Null s) = se_total_size s"

fun Extent_ReadAt :: "'p SparseCode \<Rightarrow> 'p Extent \<Rightarrow> nat \<Rightarrow> int64 \<Rightarrow> string \<times> error option" where
  "Extent_ReadAt sc (Flat f) len off = FlatExtent_ReadAt f len off"
| "Extent_ReadAt sc (Sparse s) len off =
     (case SparseExtent_ReadAt sc s len off of (d, e) \<Rightarrow> (take len d, e))"
| "Extent_ReadAt sc (Null s) len off =
     (case NullExtent_ReadAt sc s len off of (d, e) \<Rightarrow> (take len d, e))"

fun Extent_Close :: "'p SparseCode \<Rightarrow> 'p Extent \<Rightarrow> closer list \<Rightarrow> closer list" where
  "Extent_Close sc (Flat f) tr = FlatExtent_Close f tr"
| "Extent_Close sc (Sparse s) tr = tr @ SparseExtent_Close sc s"
| "Extent_Close sc (Null s) tr = tr @ NullExtent_Close sc s"

section \<open>The descriptor settings (parser/config.go)\<close>

record VMDKConfig =
  VMDKVersion :: string
  VMDKEncoding :: string
  VMDKCid :: string
  VMDKParentCid :: string
  VMDKCreateType :: string
  DBBAdatperType :: string
  DBBGeometryCylinders :: string
  DBBGeometryHeads :: string
  DBBGeometrySectors :: string
  DBBLongContentId :: string
  DBBUuid :: string
  DBBVirtualHWVersion :: string

definition NewVMDKConfig :: VMDKConfig where
  "NewVMDKConfig =
     \<lparr> VMDKVersion = ''1'',
       VMDKEncoding = ''windows-1252'',
       VMDKCid = ''0'',
       VMDKParentCid = ''0'',
       VMDKCreateType = ''unknown'',
       DBBAdatperType = ''lsilogic'',
       DBBGeometryCylinders = ''0'',
       DBBGeometryHeads = ''0'',
       DBBGeometrySectors = ''0'',
       DBBLongContentId = [],
       DBBUuid = [],
       DBBVirtualHWVersion = [] \<rparr>"

text \<open>The map from keys to setters; a setter takes the value and the settings.\<close>

definition VMDKConfigSetters :: "string \<Rightarrow> (string \<Rightarrow> VMDKConfig \<Rightarrow> VMDKConfig) option" where
  "VMDKConfigSetters key =
     (if key = ''version'' then Some (\<lambda>val config. config\<lparr>VMDKVersion := val\<rparr>)
      else if key = ''encoding'' then Some (\<lambda>val config. config\<lparr>VMDKEncoding := val\<rparr>)
      else if key = ''CID'' then Some (\<lambda>val config. config\<lparr>VMDKCid := val\<rparr>)
      else if key = ''parentCID'' then Some (\<lambda>val config. config\<lparr>VMDKParentCid := val\<rparr>)
      else if key = ''createType'' then Some (\<lambda>val config. config\<lparr>VMDKCreateType := val\<rparr>)
      else if key = ''ddb.adapterType'' then Some (\<lambda>val config. config\<lparr>DBBAdatperType := val\<rparr>)
      else if key = ''ddb.geometry.cylinders''
        then Some (\<lambda>val config. config\<lparr>DBBGeometryCylinders := val\<rparr>)
      else if key = ''ddb.geometry.heads'' then Some (\<lambda>val config. config\<lparr>DBBGeometryHeads := val\<rparr>)
      else if key = ''ddb.geometry.sectors''
        then Some (\<lambda>val config. config\<lparr>DBBGeometrySectors := val\<rparr>)
      else if key = ''ddb.longContentID'' then Some (\<lambda>val config. config\<lparr>DBBLongContentId := val\<rparr>)
      else if key = ''ddb.uuid'' then Some (\<lambda>val config. config\<lparr>DBBUuid := val\<rparr>)
      else if key = ''ddb.virtualHWVersion''
        then Some (\<lambda>val config. config\<lparr>DBBVirtualHWVersion := val\<rparr>)
      else None)"

section \<open>The context (parser/context.go)\<close>

record 'p VMDKContext =
  ctx_config :: VMDKConfig
  ctx_reader :: ReaderAt
  ctx_extents :: "'p Extent list"
  ctx_total_size :: int64

definition VMDKContext_Size :: "'p VMDKContext \<Rightarrow> int64" where
  "VMDKContext_Size self = ctx_total_size self"

text \<open>\<open>Close\<close>: the loop over the extents, each one's \<open>Close\<close> in turn.\<close>

fun Close_loop :: "'p SparseCode \<Rightarrow> 'p Extent list \<Rightarrow> closer list \<Rightarrow> closer list" where
  "Close_loop sc [] tr = tr"
| "Close_loop sc (e # es) tr = Close_loop sc es (Extent_Close sc e tr)"

definition VMDKContext_Close :: "'p SparseCode \<Rightarrow> 'p VMDKContext \<Rightarrow> closer list \<Rightarrow> closer list" where
  "VMDKContext_Close sc self tr = Close_loop sc (ctx_extents self) tr"

subsection \<open>Lookup\<close>

text \<open>
  \<open>sort.Search(n, f)\<close> of the Go library: the binary search
  \<^verbatim>\<open>i, j := 0, n; for i < j { h := int(uint(i+j) >> 1); if !f(h) { i = h + 1 } else { j = h } }; return i\<close>.
\<close>

function Search_loop :: "(nat \<Rightarrow> bool) \<Rightarrow> nat \<Rightarrow> nat \<Rightarrow> nat" where
  "Search_loop f i j =
     (if i < j then
        (let h = (i + j) div 2
         in if \<not> f h then Search_loop f (h + 1) j else Search_loop f i h)
      else i)"
  by pat_completeness auto
termination
  by (relation "measure (\<lambda>(f, i, j). j - i)") auto

declare Search_loop.simps [simp del]

definition Search :: "nat \<Rightarrow> (nat \<Rightarrow> bool) \<Rightarrow> nat" where
  "Search n f = Search_loop f 0 n"

definition getExtentForOffset :: "'p VMDKContext \<Rightarrow> int64 \<Rightarrow> error + 'p Extent" where
  "getExtentForOffset self offset =
     (let n = Search (length (ctx_extents self))
                (\<lambda>i. let extent = ctx_extents self ! i;
                         virtual_offset = Extent_VirtualOffset extent
                     in sint offset < sint virtual_offset)
      in if n < 1 \<or> length (ctx_extents self) < n then Inl EOF
         else
           let extent = ctx_extents self ! (n - 1);
               virtual_offset = Extent_VirtualOffset extent;
               extent_size = Extent_TotalSize extent
           in if sint offset < sint virtual_offset \<or>
                 sint (virtual_offset + extent_size) < sint offset
              then Inl EOF
              else Inr extent)"

subsection \<open>Normalization\<close>

text \<open>
  The loop of \<open>normalizeExtents\<close> over the old list, with the new list and the running
  offset as its state.  The null extent it builds names two fields; the others are zero.
\<close>

fun normalize_loop ::
  "'p \<Rightarrow> 'p Extent list \<Rightarrow> 'p Extent list \<Rightarrow> int64 \<Rightarrow> 'p Extent list" where
  "normalize_loop z [] extents offset = extents"
| "normalize_loop z (e # es) extents offset =
     (let extents1 =
            (if sint offset < sint (Extent_VirtualOffset e)
             then extents @ [Null \<lparr> se_offset = offset,
                                    se_total_size = Extent_VirtualOffset e - offset,
                                    se_closer = None,
                                    se_filename = [],
                                    se_rest = z \<rparr>]
             else extents);
          extents2 = extents1 @ [e]
      in normalize_loop z es extents2 (offset + Extent_TotalSize e))"

definition normalizeExtents :: "'p SparseCode \<Rightarrow> 'p VMDKContext \<Rightarrow> 'p VMDKContext" where
  "normalizeExtents sc self =
     self\<lparr> ctx_extents := normalize_loop (zero_rest sc) (ctx_extents self) [] 0 \<rparr>"

subsection \<open>Reading\<close>

text \<open>
  The body of the loop of \<open>ReadAt\<close>.  \<open>arr\<close> is the caller's buffer, whose length is the
  \<open>buf_len\<close> the loop runs to; \<open>blen\<close> is the length of \<open>buf\<close> after the clamp
  \<open>buf = buf[:available_length]\<close>, a shorter view of the same array; \<open>i\<close> is the progress
  counter.  The body either leaves the function (a \<open>return\<close>, or the \<open>break\<close> that falls
  to the final \<open>return int(i), nil\<close>) with the count, the error and the buffer as the
  call leaves it, or goes round again with a new buffer content and counter.  The
  capacity of the caller's buffer is taken to be its length, so \<open>buf[i:i+to_read]\<close> panics
  when \<open>to_read\<close> is negative or \<open>i + to_read\<close> passes the end of \<open>arr\<close>.
\<close>

datatype step = Return "fault + nat \<times> error option \<times> string" | Next string nat

definition ReadAt_body ::
  "'p SparseCode \<Rightarrow> 'p VMDKContext \<Rightarrow> int64 \<Rightarrow> nat \<Rightarrow> string \<Rightarrow> nat \<Rightarrow> step" where
  "ReadAt_body sc self offset blen arr i =
     (case getExtentForOffset self (offset + of_nat i) of
        Inl err \<Rightarrow> Return (Inr (blen, None, replicate blen (CHR 0x00) @ drop blen arr))
      | Inr extent \<Rightarrow>
          (let index_in_extent = offset + of_nat i - Extent_VirtualOffset extent;
               available_length = Extent_TotalSize extent - index_in_extent;
               to_read0 = (of_nat (length arr) - of_nat i :: int64);
               to_read = (if sint available_length < sint to_read0
                          then available_length else to_read0)
           in if sint to_read < 0 \<or> length arr < i + nat (sint to_read)
              then Return (Inl (Panic SliceBoundsOutOfRange))
              else
                (case Extent_ReadAt sc extent (nat (sint to_read)) index_in_extent of
                   (d, err) \<Rightarrow>
                     (let data = take (nat (sint to_read)) d;
                          n = length data;
                          arr' = take i arr @ data @ drop (i + n) arr
                      in if err \<noteq> None \<and> err \<noteq> Some EOF then Return (Inr (i, err, arr'))
                         else if n = 0 then Return (Inr (i, None, arr'))
                         else Next arr' (i + n)))))"

lemma ReadAt_body_Next:
  assumes "ReadAt_body sc self offset blen arr i = Next arr' i'" and "i < length arr"
  shows "length arr' = length arr \<and> i < i' \<and> i' \<le> length arr"
  using assms
  by (auto simp: ReadAt_body_def Let_def split: sum.splits if_splits prod.splits)

function ReadAt_loop ::
  "'p SparseCode \<Rightarrow> 'p VMDKContext \<Rightarrow> int64 \<Rightarrow> nat \<Rightarrow> string \<Rightarrow> nat
     \<Rightarrow> fault + nat \<times> error option \<times> string" where
  "ReadAt_loop sc self offset blen arr i =
     (if i < length arr then
        (case ReadAt_body sc self offset blen arr i of
           Return r \<Rightarrow> r
         | Next arr' i' \<Rightarrow> ReadAt_loop sc self offset blen arr' i')
      else Inr (i, None, arr))"
  by pat_completeness auto
termination
proof (relation "measure (\<lambda>(sc, self, offset, blen, arr, i). length arr - i)", goal_cases)
  case 1
  show ?case by simp
next
  case (2 sc self offset blen arr i arr' i')
  then have "length arr' = length arr \<and> i < i' \<and> i < length arr"
    using ReadAt_body_Next [of sc self offset blen arr i arr' i'] by simp
  then show ?case by (simp add: diff_less_mono2)
qed

declare ReadAt_loop.simps [simp del]

definition VMDKContext_ReadAt ::
  "'p SparseCode \<Rightarrow> 'p VMDKContext \<Rightarrow> string \<Rightarrow> int64 \<Rightarrow> fault + (nat \<times> error option \<times> string)" where
  "VMDKContext_ReadAt sc self buf offset =
     (if sint (ctx_total_size self) < sint offset \<or> sint offset < 0 then Inr (0, Some EOF, buf)
      else
        let available_length = ctx_total_size self - offset;
            blen = (if sint available_length < sint (of_nat (length buf) :: int64)
                    then nat (sint available_length) else length buf)
        in ReadAt_loop sc self offset blen buf 0)"

section \<open>Strings\<close>

text \<open>The Go library functions \<open>context.go\<close> applies to the descriptor text, on bytes.\<close>

definition quote :: char where
  "quote = CHR 0x22"

definition newline :: char where
  "newline = CHR 0x0A"

text \<open>\<open>strings.HasPrefix\<close>; also what \<open>MatchString\<close> is for a regex \<open>^literal\<close>.\<close>

definition HasPrefix :: "string \<Rightarrow> string \<Rightarrow> bool" where
  "HasPrefix s p = (take (length p) s = p)"

text \<open>\<open>strings.Contains\<close>.\<close>

fun Contains :: "string \<Rightarrow> string \<Rightarrow> bool" where
  "Contains [] sub = (sub = [])"
| "Contains (c # cs) sub = (HasPrefix (c # cs) sub \<or> Contains cs sub)"

text \<open>\<open>strings.Split(s, "\n")\<close>: one more piece than there are newlines.\<close>

fun Split_newline :: "string \<Rightarrow> string list" where
  "Split_newline [] = [[]]"
| "Split_newline (c # cs) =
     (if c = newline then [] # Split_newline cs
      else (case Split_newline cs of [] \<Rightarrow> [[c]] | l # ls \<Rightarrow> (c # l) # ls))"

text \<open>\<open>strings.SplitN(s, "=", 2)\<close>: cut at the first \<open>=\<close>, if there is one.\<close>

definition SplitN_equals_2 :: "string \<Rightarrow> string list" where
  "SplitN_equals_2 s =
     (case dropWhile (\<lambda>c. c \<noteq> CHR ''='') s of
        [] \<Rightarrow> [s]
      | _ # rest \<Rightarrow> [takeWhile (\<lambda>c. c \<noteq> CHR ''='') s, rest])"

text \<open>\<open>strings.Trim(s, "\"")\<close>: every leading and trailing double quote goes.\<close>

definition Trim_quotes :: "string \<Rightarrow> string" where
  "Trim_quotes s = rev (dropWhile (\<lambda>c. c = quote) (rev (dropWhile (\<lambda>c. c = quote) s)))"

text \<open>
  \<open>strings.TrimSpace\<close> removes the leading and the trailing white space, as Unicode
  defines it, of a UTF-8 string.  On bytes: the code points of \<open>unicode.White_Space\<close>
  (U+0009 to U+000D, U+0020, U+0085, U+00A0, U+1680, U+2000 to U+200A, U+2028, U+2029,
  U+202F, U+205F, U+3000) in their UTF-8 encodings.  A byte sequence that is not one of
  them decodes to another rune or to the error rune, and stops the trimming.
\<close>

definition White_Space :: "string list" where
  "White_Space =
     [[CHR 0x09], [CHR 0x0A], [CHR 0x0B], [CHR 0x0C], [CHR 0x0D], [CHR 0x20],
      [CHR 0xC2, CHR 0x85], [CHR 0xC2, CHR 0xA0],
      [CHR 0xE1, CHR 0x9A, CHR 0x80],
      [CHR 0xE2, CHR 0x80, CHR 0x80], [CHR 0xE2, CHR 0x80, CHR 0x81],
      [CHR 0xE2, CHR 0x80, CHR 0x82], [CHR 0xE2, CHR 0x80, CHR 0x83],
      [CHR 0xE2, CHR 0x80, CHR 0x84], [CHR 0xE2, CHR 0x80, CHR 0x85],
      [CHR 0xE2, CHR 0x80, CHR 0x86], [CHR 0xE2, CHR 0x80, CHR 0x87],
      [CHR 0xE2, CHR 0x80, CHR 0x88], [CHR 0xE2, CHR 0x80, CHR 0x89],
      [CHR 0xE2, CHR 0x80, CHR 0x8A],
      [CHR 0xE2, CHR 0x80, CHR 0xA8], [CHR 0xE2, CHR 0x80, CHR 0xA9],
      [CHR 0xE2, CHR 0x80, CHR 0xAF],
      [CHR 0xE2, CHR 0x81, CHR 0x9F],
      [CHR 0xE3, CHR 0x80, CHR 0x80]]"

text \<open>Removing leading runes of a list of encodings, as long as one is there.\<close>

function strip_runes :: "string list \<Rightarrow> string \<Rightarrow> string" where
  "strip_runes rs s =
     (case find (\<lambda>p. p \<noteq> [] \<and> HasPrefix s p) rs of
        None \<Rightarrow> s
      | Some p \<Rightarrow> strip_runes rs (drop (length p) s))"
  by pat_completeness auto
termination
proof (relation "measure (\<lambda>(rs, s). length s)", goal_cases)
  case 1
  show ?case by simp
next
  case (2 rs s p)
  then have "p \<noteq> []" and "take (length p) s = p"
    by (auto simp: find_Some_iff HasPrefix_def)
  then have "s \<noteq> []" by auto
  with \<open>p \<noteq> []\<close> show ?case by simp
qed

declare strip_runes.simps [simp del]

definition TrimSpace :: "string \<Rightarrow> string" where
  "TrimSpace s = rev (strip_runes (map rev White_Space) (rev (strip_runes White_Space s)))"

section \<open>Numbers\<close>

definition is_digit :: "char \<Rightarrow> bool" where
  "is_digit c = (48 \<le> (of_char c :: nat) \<and> (of_char c :: nat) \<le> 57)"

definition is_upper :: "char \<Rightarrow> bool" where
  "is_upper c = (65 \<le> (of_char c :: nat) \<and> (of_char c :: nat) \<le> 90)"

definition digit_value :: "char \<Rightarrow> nat" where
  "digit_value c = of_char c - 48"

text \<open>
  \<open>strconv.ParseInt(s, 10, 64)\<close>: an optional sign, then one decimal digit or more and
  nothing else, and a value that an \<open>int64\<close> holds; \<open>None\<close> is the error it returns (of
  syntax or of range).
\<close>

definition strconv_ParseInt :: "string \<Rightarrow> int64 option" where
  "strconv_ParseInt s =
     (let neg = (s \<noteq> [] \<and> hd s = CHR ''-'');
          ds = (if s \<noteq> [] \<and> (hd s = CHR ''+'' \<or> hd s = CHR ''-'') then tl s else s)
      in if ds = [] \<or> \<not> list_all is_digit ds then None
         else
           let v = foldl (\<lambda>a c. 10 * a + digit_value c) (0 :: nat) ds
           in if neg then (if v \<le> 2 ^ 63 then Some (- of_nat v) else None)
              else (if v < 2 ^ 63 then Some (of_nat v) else None))"

text \<open>\<open>ParseInt\<close> of \<open>context.go\<close>: the value, or the panic with the text in its message.\<close>

definition ParseInt :: "string \<Rightarrow> panic + int64" where
  "ParseInt s =
     (case strconv_ParseInt s of
        None \<Rightarrow> Inl (InvalidInteger s)
      | Some n \<Rightarrow> Inr n)"

section \<open>The descriptor\<close>

definition StartDescriptorRegex :: string where
  "StartDescriptorRegex = ''^# Disk DescriptorFile''"

definition StartExtentRegex :: string where
  "StartExtentRegex = ''^# Extent description''"

definition StartDiskDataBaseRegex :: string where
  "StartDiskDataBaseRegex = ''^# The Disk Data Base''"

text \<open>
  \<open>MatchString\<close> for the three regexes above, each \<open>^\<close> and a literal: the line begins
  with the literal.
\<close>

definition MatchString :: "string \<Rightarrow> string \<Rightarrow> bool" where
  "MatchString re line = HasPrefix line (tl re)"

text \<open>
  \<open>ExtentRegex\<close> is \<^verbatim>\<open>(RW|R) (\d+) ([A-Z]+) "([^"]+)"(?: (\d+))?\<close>, with no anchor.
  \<open>ExtentRegex_at\<close> matches it at the front of a string, \<open>ExtentRegex_fields\<close> being the
  part after the first group and its space.  The match is forced: after
  \<open>RW\<close> or \<open>R\<close> comes a space (so \<open>R\<close> is no way out when \<open>RW\<close> fails later), every
  repetition is followed by a character outside its class (so the longest run is the
  only one), and the optional group is taken when it can be.  The answer is the list of
  the whole match and the five groups, a group that took no part being empty.
\<close>

definition ExtentRegex_fields :: "string \<Rightarrow> string \<Rightarrow> string list option" where
  "ExtentRegex_fields g1 s1 =
     (let g2 = takeWhile is_digit s1;
          s2 = dropWhile is_digit s1
      in if g2 = [] \<or> \<not> HasPrefix s2 '' '' then None
         else
           let g3 = takeWhile is_upper (drop 1 s2);
               s3 = dropWhile is_upper (drop 1 s2)
           in if g3 = [] \<or> \<not> HasPrefix s3 [CHR '' '', quote] then None
              else
                let g4 = takeWhile (\<lambda>c. c \<noteq> quote) (drop 2 s3);
                    s4 = dropWhile (\<lambda>c. c \<noteq> quote) (drop 2 s3)
                in if g4 = [] \<or> s4 = [] then None
                   else
                     let s5 = drop 1 s4;
                         g5 = (if HasPrefix s5 '' '' then takeWhile is_digit (drop 1 s5)
                               else []);
                         m = g1 @ '' '' @ g2 @ '' '' @ g3 @ [CHR '' '', quote] @ g4 @ [quote]
                               @ (if g5 = [] then [] else '' '' @ g5)
                     in Some [m, g1, g2, g3, g4, g5])"

definition ExtentRegex_at :: "string \<Rightarrow> string list option" where
  "ExtentRegex_at s =
     (if HasPrefix s ''RW '' then ExtentRegex_fields ''RW'' (drop 3 s)
      else if HasPrefix s ''R '' then ExtentRegex_fields ''R'' (drop 2 s)
      else None)"

text \<open>
  \<open>ExtentRegex.FindStringSubmatch\<close>: the match at the leftmost position that has one;
  \<open>None\<close> is the nil slice, a match is a slice of length 6.
\<close>

fun FindStringSubmatch :: "string \<Rightarrow> string list option" where
  "FindStringSubmatch [] = ExtentRegex_at []"
| "FindStringSubmatch (c # cs) =
     (case ExtentRegex_at (c # cs) of
        Some m \<Rightarrow> Some m
      | None \<Rightarrow> FindStringSubmatch cs)"

definition saveDescriptorSetting :: "string \<Rightarrow> VMDKConfig \<Rightarrow> VMDKConfig" where
  "saveDescriptorSetting line config =
     (let parts = SplitN_equals_2 line
      in if length parts \<noteq> 2 then config
         else
           let key = TrimSpace (parts ! 0);
               val = Trim_quotes (TrimSpace (parts ! 1))
           in (case VMDKConfigSetters key of
                 Some setter \<Rightarrow> setter val config
               | None \<Rightarrow> config))"

text \<open>\<open>binary.LittleEndian.Uint32\<close> of four bytes.\<close>

definition LittleEndian_Uint32 :: "string \<Rightarrow> 32 word" where
  "LittleEndian_Uint32 b =
     of_char (b ! 0) OR push_bit 8 (of_char (b ! 1)) OR push_bit 16 (of_char (b ! 2))
       OR push_bit 24 (of_char (b ! 3))"

section \<open>Opening (GetVMDKContext of parser/context.go)\<close>

text \<open>The opener: the error, or the reader and the closer of the extent file.\<close>

type_synonym opener = "string \<Rightarrow> error + ReaderAt \<times> closer option"

text \<open>
  The body of the loop over the lines, on the state of the scan (the \<open>state\<close> string and
  the context \<open>res\<close>, whose settings are the \<open>config\<close> of the source).
\<close>

definition process_line ::
  "'p SparseCode \<Rightarrow> opener \<Rightarrow> string \<times> 'p VMDKContext \<Rightarrow> string
     \<Rightarrow> fault + string \<times> 'p VMDKContext" where
  "process_line sc opener st raw =
     (case st of (state, res) \<Rightarrow>
        let line = TrimSpace raw
        in if MatchString StartDescriptorRegex line then Inr (''Descriptor'', res)
           else if MatchString StartExtentRegex line then Inr (''Extents'', res)
           else if MatchString StartDiskDataBaseRegex line then Inr (''DiskDataBase'', res)
           else if state = ''KDMV'' then
             (if Contains line (tl StartDescriptorRegex) then Inr (''Descriptor'', res)
              else Inr (state, res))
           else if state = ''Descriptor'' then
             Inr (state, res\<lparr> ctx_config := saveDescriptorSetting line (ctx_config res) \<rparr>)
           else if state = ''Extents'' then
             (case FindStringSubmatch line of
                None \<Rightarrow> Inr ([], res)
              | Some match \<Rightarrow>
                  (let extent_type = match ! 3;
                       extent_filename = match ! 4
                   in case opener extent_filename of
                        Inl err \<Rightarrow> Inl (Error err)
                      | Inr (reader, closer) \<Rightarrow>
                          if extent_type = ''SPARSE'' then
                            (case GetSparseExtent sc reader of
                               Inl err \<Rightarrow>
                                 Inl (Error (WrapError (''While opening '' @ extent_filename) err))
                             | Inr extent0 \<Rightarrow>
                                 (let extent = extent0\<lparr> se_offset := ctx_total_size res,
                                                         se_closer := closer,
                                                         se_filename := extent_filename \<rparr>
                                  in Inr (state,
                                       res\<lparr> ctx_total_size :=
                                                ctx_total_size res + se_total_size extent,
                                             ctx_extents := ctx_extents res @ [Sparse extent] \<rparr>)))
                          else if extent_type = ''FLAT'' then
                            (case ParseInt (match ! 2) of
                               Inl p \<Rightarrow> Inl (Panic p)
                             | Inr sectors \<Rightarrow>
                                 (case ParseInt (match ! 5) of
                                    Inl p \<Rightarrow> Inl (Panic p)
                                  | Inr offsetSectors \<Rightarrow>
                                      (case GetFlatExtent reader extent_filename offsetSectors
                                              sectors (ctx_total_size res) closer of
                                         Inl err \<Rightarrow>
                                           Inl (Error (WrapError
                                             (''While opening flat extent '' @ extent_filename) err))
                                       | Inr extent \<Rightarrow>
                                           Inr (state,
                                             res\<lparr> ctx_total_size :=
                                                      ctx_total_size res + FlatExtent_TotalSize extent,
                                                   ctx_extents := ctx_extents res @ [Flat extent] \<rparr>))))
                          else Inl (Error (ErrorString (''Unsupported extent type '' @ extent_type)))))
           else if state = ''DiskDataBase'' then
             Inr (state, res\<lparr> ctx_config := saveDescriptorSetting line (ctx_config res) \<rparr>)
           else Inr (state, res))"

fun process_lines ::
  "'p SparseCode \<Rightarrow> opener \<Rightarrow> string \<times> 'p VMDKContext \<Rightarrow> string list
     \<Rightarrow> fault + string \<times> 'p VMDKContext" where
  "process_lines sc opener st [] = Inr st"
| "process_lines sc opener st (l # ls) =
     (case process_line sc opener st l of
        Inl f \<Rightarrow> Inl f
      | Inr st' \<Rightarrow> process_lines sc opener st' ls)"

text \<open>
  \<open>GetVMDKContext(reader, size, opener)\<close>.  \<open>make([]byte, size)\<close> panics on a negative
  size and otherwise gives \<open>size\<close> zero bytes, of capacity \<open>size\<close>; the reader stores its
  \<open>n\<close> bytes at the front; \<open>buf[0:4]\<close> panics when the capacity is below 4.
\<close>

definition GetVMDKContext ::
  "'p SparseCode \<Rightarrow> ReaderAt \<Rightarrow> int \<Rightarrow> opener \<Rightarrow> fault + 'p VMDKContext" where
  "GetVMDKContext sc reader size0 opener =
     (let res = \<lparr> ctx_config = NewVMDKConfig, ctx_reader = reader,
                   ctx_extents = [], ctx_total_size = 0 \<rparr>;
          size = (if 64 * 1024 < size0 then 64 * 1024 else size0)
      in if size < 0 then Inl (Panic MakeSliceLenOutOfRange)
         else
           (case call_ReadAt reader (nat size) 0 of
              (d, err) \<Rightarrow>
                (let buf = d @ replicate (nat size - length d) (CHR 0x00);
                     n = length d
                 in if err \<noteq> None \<and> err \<noteq> Some EOF then Inl (Error (case_option EOF id err))
                    else if length buf < 4 then Inl (Panic SliceBoundsOutOfRange)
                    else
                      let state = (if LittleEndian_Uint32 (take 4 buf) = SPARSE_MAGICNUMBER
                                   then ''KDMV'' else [])
                      in (case process_lines sc opener (state, res) (Split_newline (take n buf)) of
                            Inl f \<Rightarrow> Inl f
                          | Inr (state', res') \<Rightarrow> Inr (normalizeExtents sc res')))))"

section \<open>The languages of the extent regexes\<close>

text \<open>
  What it is for \<open>ExtentRegex\<close> to match at the front of a string, and somewhere in a
  line, said without the scanner: the string begins with \<open>RW\<close> or \<open>R\<close>, one space, a run
  of digits, one space, a run of capitals, one space, and a quoted run of characters
  other than the quote.  (The optional last group adds no condition.)
\<close>

definition ExtentRegex_matches_at :: "string \<Rightarrow> bool" where
  "ExtentRegex_matches_at s \<longleftrightarrow>
     (\<exists>mode ds kind name rest.
        s = mode @ '' '' @ ds @ '' '' @ kind @ [CHR '' '', quote] @ name @ [quote] @ rest
        \<and> (mode = ''RW'' \<or> mode = ''R'')
        \<and> ds \<noteq> [] \<and> list_all is_digit ds
        \<and> kind \<noteq> [] \<and> list_all is_upper kind
        \<and> name \<noteq> [] \<and> list_all (\<lambda>c. c \<noteq> quote) name)"

definition ExtentRegex_matches :: "string \<Rightarrow> bool" where
  "ExtentRegex_matches line \<longleftrightarrow> (\<exists>pre s. line = pre @ s \<and> ExtentRegex_matches_at s)"

text \<open>
  The regex the spec gives for an extent line,
  \<^verbatim>\<open>^(RW|R)\s+(\d+)\s+([A-Z]+)\s+"([^"]+)"(?:\s+(\d+))?\<close>, written from the spec's words: it is
  anchored at the start of the line and separates the fields by runs of white space
  (\<open>\s\<close> is tab, newline, form feed, carriage return or space).
\<close>

definition is_regex_space :: "char \<Rightarrow> bool" where
  "is_regex_space c \<longleftrightarrow> c \<in> {CHR 0x09, CHR 0x0A, CHR 0x0C, CHR 0x0D, CHR 0x20}"

definition spec_ExtentRegex_matches :: "string \<Rightarrow> bool" where
  "spec_ExtentRegex_matches line =
     (let s0 = (if HasPrefix line ''RW'' then Some (drop 2 line)
                else if HasPrefix line ''R'' then Some (drop 1 line)
                else None)
      in case s0 of
           None \<Rightarrow> False
         | Some s1 \<Rightarrow>
             (let s2 = dropWhile is_regex_space s1;
                  s3 = dropWhile is_digit s2;
                  s4 = dropWhile is_regex_space s3;
                  s5 = dropWhile is_upper s4;
                  s6 = dropWhile is_regex_space s5;
                  s7 = dropWhile (\<lambda>c. c \<noteq> quote) (drop 1 s6)
              in takeWhile is_regex_space s1 \<noteq> [] \<and> takeWhile is_digit s2 \<noteq> []
                 \<and> takeWhile is_regex_space s3 \<noteq> [] \<and> takeWhile is_upper s4 \<noteq> []
                 \<and> takeWhile is_regex_space s5 \<noteq> [] \<and> HasPrefix s6 [quote]
                 \<and> takeWhile (\<lambda>c. c \<noteq> quote) (drop 1 s6) \<noteq> [] \<and> HasPrefix s7 [quote]))"

section \<open>Fixtures\<close>

text \<open>
  Concrete collaborators for the instances below: a backing reader that fills any
  buffer with the byte \<open>A\<close>, an opener that opens every file on it (with closer 1 for
  \<open>a.vmdk\<close> and closer 2 for any other file), and
  a stand-in for the missing sparse code that refuses every header.
\<close>

definition reader_A :: ReaderAt where
  "reader_A = (\<lambda>len off. (replicate len (CHR ''A''), None))"

definition opener_A :: opener where
  "opener_A = (\<lambda>filename. Inr (reader_A, Some (if filename = ''a.vmdk'' then 1 else 2)))"

definition no_sparse :: "unit SparseCode" where
  "no_sparse =
     \<lparr> GetSparseExtent = (\<lambda>r. Inl (ErrorString ''bad magic'')),
       SparseExtent_ReadAt = (\<lambda>s len off. ([], Some EOF)),
       SparseExtent_Close = (\<lambda>s. []),
       NullExtent_ReadAt = (\<lambda>s len off. (replicate len (CHR 0x00), None)),
       NullExtent_Close = (\<lambda>s. []),
       zero_rest = () \<rparr>"

section \<open>The GetVMDKContext of src/unnamed/part\_000\<close>

text \<open>
  The first file of \<open>src/unnamed/part_000\<close> is another \<open>context.go\<close>.  Its context has no
  settings (the field keeps its default here), and apart from that the file differs
  from \<open>parser/context.go\<close> in \<open>GetVMDKContext\<close> alone: there is no magic-number check, the
  lines are not trimmed, only the header of the extent section is looked for, the
  numbers are parsed first, by a \<open>parseInt\<close> that hands back the error of
  \<open>strconv.ParseInt\<close>, the sector offset is 0 when the line has none, and \<open>VMFS\<close> is
  taken as \<open>FLAT\<close>.
\<close>

definition parseInt :: "string \<Rightarrow> error + int64" where
  "parseInt s =
     (case strconv_ParseInt s of
        None \<Rightarrow> Inl (NumError s)
      | Some n \<Rightarrow> Inr n)"

definition process_line_part_000 ::
  "'p SparseCode \<Rightarrow> opener \<Rightarrow> string \<times> 'p VMDKContext \<Rightarrow> string
     \<Rightarrow> fault + string \<times> 'p VMDKContext" where
  "process_line_part_000 sc opener st line =
     (case st of (state, res) \<Rightarrow>
        if MatchString StartExtentRegex line then Inr (''Extents'', res)
        else if state = ''Extents'' then
          (case FindStringSubmatch line of
             None \<Rightarrow> Inr ([], res)
           | Some match \<Rightarrow>
               (case parseInt (match ! 2) of
                  Inl err \<Rightarrow> Inl (Error err)
                | Inr sectors \<Rightarrow>
                    (let extent_type = match ! 3;
                         extent_filename = match ! 4
                     in case (if 6 \<le> length match \<and> match ! 5 \<noteq> []
                              then (case parseInt (match ! 5) of
                                      Inl err \<Rightarrow>
                                        Inl (WrapError
                                          ''error occured while parsing offsetSectors'' err)
                                    | Inr n \<Rightarrow> Inr n)
                              else Inr 0) of
                          Inl err \<Rightarrow> Inl (Error err)
                        | Inr offsetSectors \<Rightarrow>
                            (case opener extent_filename of
                               Inl err \<Rightarrow> Inl (Error err)
                             | Inr (reader, closer) \<Rightarrow>
                                 if extent_type = ''SPARSE'' then
                                   (case GetSparseExtent sc reader of
                                      Inl err \<Rightarrow>
                                        Inl (Error (WrapError
                                          (''while opening '' @ extent_filename) err))
                                    | Inr extent0 \<Rightarrow>
                                        (let extent =
                                               extent0\<lparr> se_offset := ctx_total_size res,
                                                         se_closer := closer,
                                                         se_filename := extent_filename \<rparr>
                                         in Inr (state,
                                              res\<lparr> ctx_total_size :=
                                                       ctx_total_size res + se_total_size extent,
                                                    ctx_extents :=
                                                       ctx_extents res @ [Sparse extent] \<rparr>)))
                                 else if extent_type = ''FLAT'' \<or> extent_type = ''VMFS'' then
                                   (case GetFlatExtent reader extent_filename offsetSectors
                                           sectors (ctx_total_size res) closer of
                                      Inl err \<Rightarrow>
                                        Inl (Error (WrapError
                                          (''while opening '' @ extent_filename) err))
                                    | Inr extent \<Rightarrow>
                                        Inr (state,
                                          res\<lparr> ctx_total_size :=
                                                   ctx_total_size res + FlatExtent_TotalSize extent,
                                                ctx_extents := ctx_extents res @ [Flat extent] \<rparr>))
                                 else Inl (Error (ErrorString
                                        (''Unsupported extent type '' @ extent_type)))))))
        else Inr (state, res))"

fun process_lines_part_000 ::
  "'p SparseCode \<Rightarrow> opener \<Rightarrow> string \<times> 'p VMDKContext \<Rightarrow> string list
     \<Rightarrow> fault + string \<times> 'p VMDKContext" where
  "process_lines_part_000 sc opener st [] = Inr st"
| "process_lines_part_000 sc opener st (l # ls) =
     (case process_line_part_000 sc opener st l of
        Inl f \<Rightarrow> Inl f
      | Inr st' \<Rightarrow> process_lines_part_000 sc opener st' ls)"

definition GetVMDKContext_part_000 ::
  "'p SparseCode \<Rightarrow> ReaderAt \<Rightarrow> int \<Rightarrow> opener \<Rightarrow> fault + 'p VMDKContext" where
  "GetVMDKContext_part_000 sc reader size0 opener =
     (let res = \<lparr> ctx_config = NewVMDKConfig, ctx_reader = reader,
                   ctx_extents = [], ctx_total_size = 0 \<rparr>;
          size = (if 64 * 1024 < size0 then 64 * 1024 else size0)
      in if size < 0 then Inl (Panic MakeSliceLenOutOfRange)
         else
           (case call_ReadAt reader (nat size) 0 of
              (d, err) \<Rightarrow>
                if err \<noteq> None \<and> err \<noteq> Some EOF then Inl (Error (case_option EOF id err))
                else
                  (case process_lines_part_000 sc opener ([], res) (Split_newline d) of
                     Inl f \<Rightarrow> Inl f
                   | Inr (state', res') \<Rightarrow> Inr (normalizeExtents sc res'))))"

section \<open>Contiguity\<close>

text \<open>
  \<open>chained s es t\<close>: the extents \<open>es\<close> lie one after the other from \<open>s\<close> to \<open>t\<close>, each
  starting where the one before it ends (in \<open>int64\<close> arithmetic).
\<close>

fun chained :: "int64 \<Rightarrow> 'p Extent list \<Rightarrow> int64 \<Rightarrow> bool" where
  "chained s [] t = (s = t)"
| "chained s (e # es) t =
     (Extent_VirtualOffset e = s \<and> chained (s + Extent_TotalSize e) es t)"

text \<open>
  \<open>laid_out s es t\<close>: read as integers, the offsets and sizes of \<open>es\<close> tile the range from
  \<open>s\<close> to \<open>t\<close> in order, with no size negative; no sum along the way wraps.
\<close>

fun laid_out :: "int \<Rightarrow> 'p Extent list \<Rightarrow> int \<Rightarrow> bool" where
  "laid_out s [] t = (s = t)"
| "laid_out s (e # es) t =
     (sint (Extent_VirtualOffset e) = s \<and> 0 \<le> sint (Extent_TotalSize e)
      \<and> laid_out (s + sint (Extent_TotalSize e)) es t)"

text \<open>A descriptor of two flat extents, and the context \<open>GetVMDKContext\<close> builds from it.\<close>

definition two_flat_descriptor :: string where
  "two_flat_descriptor =
     ''# Extent description'' @ [newline] @
     ''RW 1 FLAT '' @ [quote] @ ''a.vmdk'' @ [quote] @ '' 0'' @ [newline] @
     ''RW 2 FLAT '' @ [quote] @ ''b.vmdk'' @ [quote] @ '' 3'' @ [newline]"

definition descriptor_reader :: "string \<Rightarrow> ReaderAt" where
  "descriptor_reader text = (\<lambda>len off. (take len (drop (nat (sint off)) text), Some EOF))"

definition two_flat_context :: "unit VMDKContext" where
  "two_flat_context =
     \<lparr> ctx_config = NewVMDKConfig,
       ctx_reader = descriptor_reader two_flat_descriptor,
       ctx_extents =
         [Flat \<lparr> fe_reader = reader_A,
                 fe_header = \<lparr> Reader = reader_A, Offset = 0 \<rparr>,
                 fe_total_size = 512, fe_offset = 0, fe_filename = ''a.vmdk'',
                 fe_closer = Some 1 \<rparr>,
          Flat \<lparr> fe_reader = reader_A,
                 fe_header = \<lparr> Reader = reader_A, Offset = 1536 \<rparr>,
                 fe_total_size = 1024, fe_offset = 512, fe_filename = ''b.vmdk'',
                 fe_closer = Some 2 \<rparr>],
       ctx_total_size = 1536 \<rparr>"

text \<open>
  A descriptor whose second extent declares \<open>2 ^ 55 - 1\<close> sectors: the size \<open>sectors * 512\<close>
  wraps to \<open>- 512\<close>.  \<open>wrapped_context\<close> is the context \<open>GetVMDKContext\<close> builds from it.
\<close>

definition wrapped_descriptor :: string where
  "wrapped_descriptor =
     ''# Extent description'' @ [newline] @
     ''RW 2 FLAT '' @ [quote] @ ''a.vmdk'' @ [quote] @ '' 0'' @ [newline] @
     ''RW 36028797018963967 FLAT '' @ [quote] @ ''b.vmdk'' @ [quote] @ '' 0'' @ [newline]"

definition wrapped_context :: "unit VMDKContext" where
  "wrapped_context =
     \<lparr> ctx_config = NewVMDKConfig,
       ctx_reader = descriptor_reader wrapped_descriptor,
       ctx_extents =
         [Flat \<lparr> fe_reader = reader_A,
                 fe_header = \<lparr> Reader = reader_A, Offset = 0 \<rparr>,
                 fe_total_size = 1024, fe_offset = 0, fe_filename = ''a.vmdk'',
                 fe_closer = Some 1 \<rparr>,
          Flat \<lparr> fe_reader = reader_A,
                 fe_header = \<lparr> Reader = reader_A, Offset = 0 \<rparr>,
                 fe_total_size = - 512, fe_offset = 1024, fe_filename = ''b.vmdk'',
                 fe_closer = Some 2 \<rparr>],
       ctx_total_size = 512 \<rparr>"

text \<open>
  A context put together by hand, as code of the package can: an extent of 4 bytes at
  0 and an extent of 1 byte at 2, with \<open>total_size\<close> 8.
\<close>

definition overlapping_context :: "unit VMDKContext" where
  "overlapping_context =
     \<lparr> ctx_config = NewVMDKConfig,
       ctx_reader = reader_A,
       ctx_extents =
         [Flat \<lparr> fe_reader = reader_A,
                 fe_header = \<lparr> Reader = reader_A, Offset = 0 \<rparr>,
                 fe_total_size = 4, fe_offset = 0, fe_filename = ''a.vmdk'',
                 fe_closer = None \<rparr>,
          Flat \<lparr> fe_reader = reader_A,
                 fe_header = \<lparr> Reader = reader_A, Offset = 0 \<rparr>,
                 fe_total_size = 1, fe_offset = 2, fe_filename = ''b.vmdk'',
                 fe_closer = None \<rparr>],
       ctx_total_size = 8 \<rparr>"

text \<open>The context before any extent line, and the lines tried on it.\<close>

definition empty_context :: "unit VMDKContext" where
  "empty_context =
     \<lparr> ctx_config = NewVMDKConfig, ctx_reader = reader_A, ctx_extents = [],
       ctx_total_size = 0 \<rparr>"

definition line_leading_char :: string where
  "line_leading_char = ''xRW 1 FLAT '' @ [quote] @ ''a.vmdk'' @ [quote] @ '' 0''"

definition line_two_spaces :: string where
  "line_two_spaces = ''RW  1 FLAT '' @ [quote] @ ''a.vmdk'' @ [quote] @ '' 0''"

definition one_flat_context :: "unit VMDKContext" where
  "one_flat_context =
     \<lparr> ctx_config = NewVMDKConfig, ctx_reader = reader_A,
       ctx_extents =
         [Flat \<lparr> fe_reader = reader_A,
                 fe_header = \<lparr> Reader = reader_A, Offset = 0 \<rparr>,
                 fe_total_size = 512, fe_offset = 0, fe_filename = ''a.vmdk'',
                 fe_closer = Some 1 \<rparr>],
       ctx_total_size = 512 \<rparr>"

text \<open>Descriptors and lines for the extent kinds and the numbers of an extent line.\<close>

definition vmfs_descriptor :: string where
  "vmfs_descriptor =
     ''# Extent description'' @ [newline] @
     ''RW 1 VMFS '' @ [quote] @ ''a.vmdk'' @ [quote] @ '' 0'' @ [newline]"

definition line_flat_b :: string where
  "line_flat_b = ''RW 2 FLAT '' @ [quote] @ ''b.vmdk'' @ [quote] @ '' 3''"

definition line_vmfs :: string where
  "line_vmfs = ''RW 1 VMFS '' @ [quote] @ ''a.vmdk'' @ [quote] @ '' 0''"

definition big_count_descriptor :: string where
  "big_count_descriptor =
     ''# Extent description'' @ [newline] @
     ''RW 9223372036854775808 FLAT '' @ [quote] @ ''a.vmdk'' @ [quote] @ '' 0'' @ [newline]"

definition line_big_count :: string where
  "line_big_count = ''RW 9223372036854775808 FLAT '' @ [quote] @ ''a.vmdk'' @ [quote] @ '' 0''"

definition line_big_offset :: string where
  "line_big_offset = ''RW 1 FLAT '' @ [quote] @ ''a.vmdk'' @ [quote] @ '' 9223372036854775808''"

text \<open>A primary reader that fails, and one that has nothing to give.\<close>

definition failing_reader :: ReaderAt where
  "failing_reader = (\<lambda>len off. ([], Some (ErrorString ''input/output error'')))"

definition empty_reader :: ReaderAt where
  "empty_reader = (\<lambda>len off. ([], Some EOF))"




section \<open>Signed 64-bit arithmetic\<close>

lemma sint64_range: "- (2 ^ 63) \<le> sint (x :: int64) \<and> sint x < 2 ^ 63"
  using sint_ge [of x] sint_lt [of x] by simp

lemma sint64_add:
  "- (2 ^ 63) \<le> sint (a :: int64) + sint b \<Longrightarrow> sint a + sint b < 2 ^ 63
     \<Longrightarrow> sint (a + b) = sint a + sint b"
  by (simp add: sint_word_add signed_take_bit_int_eq_self)

lemma sint64_diff:
  "- (2 ^ 63) \<le> sint (a :: int64) - sint b \<Longrightarrow> sint a - sint b < 2 ^ 63
     \<Longrightarrow> sint (a - b) = sint a - sint b"
  by (simp add: sint_word_diff signed_take_bit_int_eq_self)

lemma sint64_of_nat: "int n < 2 ^ 63 \<Longrightarrow> sint (of_nat n :: int64) = int n"
  by (simp add: signed_of_nat signed_take_bit_int_eq_self)

section \<open>Flat extents: the window on the backing reader\<close>

lemma FlatExtent_ReadAt_EOF:
  assumes "sint off < 0 \<or> sint (fe_total_size e) \<le> sint off"
  shows "FlatExtent_ReadAt e len off = ([], Some EOF)"
  using assms by (auto simp: FlatExtent_ReadAt_def)

lemma FlatExtent_ReadAt_inside:
  assumes "0 \<le> sint off" and "sint off < sint (fe_total_size e)"
    and "sint off + int len < 2 ^ 63"
  shows "FlatExtent_ReadAt e len off =
           call_ReadAt (fe_reader e) (min len (nat (sint (fe_total_size e) - sint off)))
             (Offset (fe_header e) + off)"
proof -
  have len: "sint (of_nat len :: int64) = int len"
    using assms by (intro sint64_of_nat) linarith
  have sum: "sint (off + of_nat len) = sint off + int len"
    using assms len by (simp add: sint64_add)
  have diff: "sint (fe_total_size e - off) = sint (fe_total_size e) - sint off"
    using assms sint64_range [of "fe_total_size e"] by (simp add: sint64_diff)
  show ?thesis
    using assms len sum diff
    by (auto simp: FlatExtent_ReadAt_def Let_def min_def)
qed

text \<open>
  Away from the ends of the \<open>int64\<close> range the window is as declared.  For a flat extent
  built from the declaration \<open>(sector_count = S, sector_offset = B)\<close>, all sizes and
  offsets being \<open>int64\<close> values: a read at an offset below 0 or at or past \<open>S * 512\<close> gives
  \<open>(0, EOF)\<close>; a read inside, whose \<open>off + len(buf)\<close> is an \<open>int64\<close>, is the backing
  reader's read of \<open>min (len(buf)) (S * 512 - off)\<close> bytes at \<open>B * 512 + off\<close>; and the read
  of the whole extent is the backing reader's read of \<open>S * 512\<close> bytes at \<open>B * 512\<close>.
\<close>

theorem FlatExtent_ReadAt_window:
  assumes "GetFlatExtent rd fname B S vo cl = Inr e"
  shows "(sint off < 0 \<or> sint (S * 512) \<le> sint off
            \<longrightarrow> FlatExtent_ReadAt e len off = ([], Some EOF))
       \<and> (0 \<le> sint off \<and> sint off < sint (S * 512) \<and> sint off + int len < 2 ^ 63
            \<longrightarrow> FlatExtent_ReadAt e len off =
                  call_ReadAt rd (min len (nat (sint (S * 512) - sint off))) (B * 512 + off))
       \<and> (0 < sint (S * 512)
            \<longrightarrow> FlatExtent_ReadAt e (nat (sint (S * 512))) 0 =
                  call_ReadAt rd (nat (sint (S * 512))) (B * 512))"
proof -
  have e: "fe_total_size e = S * 512" "fe_reader e = rd" "Offset (fe_header e) = B * 512"
    using assms by (auto simp: GetFlatExtent_def SECTOR_SIZE_def Let_def)
  have whole: "FlatExtent_ReadAt e (nat (sint (S * 512))) 0 =
                 call_ReadAt rd (nat (sint (S * 512))) (B * 512)"
    if "0 < sint (S * 512)"
    using that FlatExtent_ReadAt_inside [of 0 e "nat (sint (S * 512))"]
      sint64_range [of "S * 512"]
    by (simp add: e)
  show ?thesis
    using FlatExtent_ReadAt_EOF [of off e len] FlatExtent_ReadAt_inside [of off e len] whole
    by (simp add: e)
qed

theorem FlatExtent_ReadAt_window_witness:
  "GetFlatExtent reader_A ''a.vmdk'' 3 2 0 (Some 1) =
     Inr \<lparr> fe_reader = reader_A,
           fe_header = \<lparr> Reader = reader_A, Offset = 1536 \<rparr>,
           fe_total_size = 1024, fe_offset = 0, fe_filename = ''a.vmdk'',
           fe_closer = Some 1 \<rparr>
   \<and> FlatExtent_ReadAt
       \<lparr> fe_reader = reader_A,
         fe_header = \<lparr> Reader = reader_A, Offset = 1536 \<rparr>,
         fe_total_size = 1024, fe_offset = 0, fe_filename = ''a.vmdk'',
         fe_closer = Some 1 \<rparr> 8 1020 = call_ReadAt reader_A 4 (1536 + 1020)
   \<and> FlatExtent_ReadAt
       \<lparr> fe_reader = reader_A,
         fe_header = \<lparr> Reader = reader_A, Offset = 1536 \<rparr>,
         fe_total_size = 1024, fe_offset = 0, fe_filename = ''a.vmdk'',
         fe_closer = Some 1 \<rparr> 8 1024 = ([], Some EOF)"
proof -
  let ?e = "\<lparr> fe_reader = reader_A,
              fe_header = \<lparr> Reader = reader_A, Offset = 1536 \<rparr>,
              fe_total_size = 1024, fe_offset = 0, fe_filename = ''a.vmdk'',
              fe_closer = Some 1 \<rparr>"
  have g: "GetFlatExtent reader_A ''a.vmdk'' 3 2 0 (Some 1) = Inr ?e"
    by (simp add: GetFlatExtent_def SECTOR_SIZE_def)
  show ?thesis
    using g FlatExtent_ReadAt_window [OF g, of 1020 8] FlatExtent_ReadAt_window [OF g, of 1024 8]
    by simp
qed

text \<open>
  C5.  A read inside a flat extent of \<open>S\<close> sectors is to be clamped to the \<open>S * 512 - off\<close>
  bytes the extent has left.  \<open>FlatExtent.ReadAt\<close> decides the clamp by the \<open>int64\<close> sum
  \<open>offset+toRead\<close>: where \<open>offset + len(buf)\<close> passes \<open>2 ^ 63\<close> the sum wraps to a negative
  number, the test \<open>offset+toRead > self.total_size\<close> fails, and the whole buffer goes to
  the backing reader.  For the extent declared with \<open>2 ^ 54 - 1\<close> sectors, a read of 1024
  bytes at offset \<open>2 ^ 63 - 513\<close>, where one byte is left, takes 1024 bytes from the
  backing reader.
\<close>

theorem FlatExtent_ReadAt_sum_wraps:
  "GetFlatExtent reader_A ''a.vmdk'' 0 (2 ^ 54 - 1) 0 None =
     Inr \<lparr> fe_reader = reader_A,
           fe_header = \<lparr> Reader = reader_A, Offset = 0 \<rparr>,
           fe_total_size = 2 ^ 63 - 512, fe_offset = 0, fe_filename = ''a.vmdk'',
           fe_closer = None \<rparr>
   \<and> sint (2 ^ 63 - 513 :: int64) < sint ((2 ^ 54 - 1) * 512 :: int64)
   \<and> nat (sint ((2 ^ 54 - 1) * 512 :: int64) - sint (2 ^ 63 - 513 :: int64)) = 1
   \<and> length (fst (FlatExtent_ReadAt
       \<lparr> fe_reader = reader_A,
         fe_header = \<lparr> Reader = reader_A, Offset = 0 \<rparr>,
         fe_total_size = 2 ^ 63 - 512, fe_offset = 0, fe_filename = ''a.vmdk'',
         fe_closer = None \<rparr> 1024 (2 ^ 63 - 513))) = 1024"
  by (simp add: GetFlatExtent_def SECTOR_SIZE_def FlatExtent_ReadAt_def call_ReadAt_def
      reader_A_def)

section \<open>Opening keeps the extents contiguous\<close>

lemmas open_eval = GetVMDKContext_def call_ReadAt_def process_line_def MatchString_def HasPrefix_def
  StartDescriptorRegex_def StartExtentRegex_def StartDiskDataBaseRegex_def TrimSpace_def
  strip_runes.simps White_Space_def ExtentRegex_at_def ExtentRegex_fields_def is_digit_def is_upper_def quote_def newline_def
  ParseInt_def strconv_ParseInt_def digit_value_def GetFlatExtent_def SECTOR_SIZE_def
  LittleEndian_Uint32_def SPARSE_MAGICNUMBER_def normalizeExtents_def Let_def
  FlatExtent_TotalSize_def FlatExtent_VirtualOffset_def

lemma two_flat_open:
  "GetVMDKContext no_sparse (descriptor_reader two_flat_descriptor) 200 opener_A = Inr two_flat_context"
  by (simp add: open_eval two_flat_descriptor_def descriptor_reader_def two_flat_context_def opener_A_def)

lemma chained_append:
  "chained s (es @ [e]) t \<longleftrightarrow> (\<exists>m. chained s es m \<and> Extent_VirtualOffset e = m \<and> t = m + Extent_TotalSize e)"
  by (induction es arbitrary: s) auto

lemma process_line_chained:
  assumes "process_line sc opener (state, res) l = Inr (state', res')"
    and "chained 0 (ctx_extents res) (ctx_total_size res)"
  shows "chained 0 (ctx_extents res') (ctx_total_size res')"
  using assms
  by (auto simp: process_line_def Let_def chained_append GetFlatExtent_def FlatExtent_TotalSize_def FlatExtent_VirtualOffset_def
      split: if_splits option.splits sum.splits prod.splits)

lemma process_lines_chained:
  assumes "process_lines sc opener (state, res) ls = Inr (state', res')"
    and "chained 0 (ctx_extents res) (ctx_total_size res)"
  shows "chained 0 (ctx_extents res') (ctx_total_size res')"
  using assms
proof (induction ls arbitrary: state res)
  case Nil
  then show ?case by simp
next
  case (Cons l ls)
  then show ?case
    by (auto split: sum.splits dest: process_line_chained)
qed

lemma normalize_loop_chained:
  "chained s es t \<Longrightarrow> normalize_loop z es acc s = acc @ es"
  by (induction es arbitrary: acc s) (auto simp: Let_def)

lemma chained_adjacent:
  "chained s es t \<Longrightarrow> Suc i < length es \<Longrightarrow>
     Extent_VirtualOffset (es ! i) + Extent_TotalSize (es ! i) = Extent_VirtualOffset (es ! Suc i)"
proof (induction es arbitrary: s i)
  case Nil
  then show ?case by simp
next
  case (Cons e es)
  show ?case
  proof (cases i)
    case 0
    with Cons.prems show ?thesis by (cases es) auto
  next
    case (Suc j)
    with Cons show ?thesis by auto
  qed
qed

lemma chained_sum: "chained s es t \<Longrightarrow> t = s + sum_list (map Extent_TotalSize es)"
proof (induction es arbitrary: s)
  case Nil
  then show ?case by simp
next
  case (Cons e es)
  then have "t = (s + Extent_TotalSize e) + sum_list (map Extent_TotalSize es)"
    by auto
  then show ?case by (simp add: add.assoc)
qed

lemma chained_hd: "chained s es t \<Longrightarrow> es \<noteq> [] \<Longrightarrow> Extent_VirtualOffset (hd es) = s"
  by (cases es) auto

lemma GetVMDKContext_Inr:
  assumes "GetVMDKContext sc reader size0 opener = Inr ctx"
  shows "\<exists>st0 ls state res.
           process_lines sc opener
             (st0, \<lparr> ctx_config = NewVMDKConfig, ctx_reader = reader,
                     ctx_extents = [], ctx_total_size = 0 \<rparr>) ls = Inr (state, res)
           \<and> ctx = normalizeExtents sc res"
  using assms
  by (auto simp: GetVMDKContext_def Let_def split: if_splits prod.splits sum.splits)

lemma GetVMDKContext_chained:
  assumes "GetVMDKContext sc reader size0 opener = Inr ctx"
  shows "chained 0 (ctx_extents ctx) (ctx_total_size ctx)"
proof -
  from GetVMDKContext_Inr [OF assms] obtain st0 ls state res where
    pl: "process_lines sc opener
           (st0, \<lparr> ctx_config = NewVMDKConfig, ctx_reader = reader,
                   ctx_extents = [], ctx_total_size = 0 \<rparr>) ls = Inr (state, res)"
    and ctx: "ctx = normalizeExtents sc res"
    by blast
  have "chained 0 (ctx_extents res) (ctx_total_size res)"
    using process_lines_chained [OF pl] by simp
  then show ?thesis
    by (simp add: ctx normalizeExtents_def normalize_loop_chained)
qed

text \<open>
  C3.  In every context that \<open>GetVMDKContext\<close> returns, each extent starts where the one
  before it ends, the first one starts at 0, and \<open>total_size\<close> is the sum of the sizes of
  all the extents of the normalized list (sums in \<open>int64\<close> arithmetic).
\<close>

theorem GetVMDKContext_contiguous:
  assumes "GetVMDKContext sc reader size0 opener = Inr ctx"
  shows "(\<forall>i. Suc i < length (ctx_extents ctx) \<longrightarrow>
            Extent_VirtualOffset (ctx_extents ctx ! i) + Extent_TotalSize (ctx_extents ctx ! i)
              = Extent_VirtualOffset (ctx_extents ctx ! Suc i))
       \<and> (ctx_extents ctx \<noteq> [] \<longrightarrow> Extent_VirtualOffset (hd (ctx_extents ctx)) = 0)
       \<and> ctx_total_size ctx = sum_list (map Extent_TotalSize (ctx_extents ctx))"
  using GetVMDKContext_chained [OF assms]
  by (auto dest: chained_adjacent chained_hd chained_sum)

theorem GetVMDKContext_contiguous_witness:
  "GetVMDKContext no_sparse (descriptor_reader two_flat_descriptor) 200 opener_A = Inr two_flat_context
   \<and> Extent_VirtualOffset (ctx_extents two_flat_context ! 0) + Extent_TotalSize (ctx_extents two_flat_context ! 0)
       = Extent_VirtualOffset (ctx_extents two_flat_context ! 1)
   \<and> Extent_VirtualOffset (hd (ctx_extents two_flat_context)) = 0
   \<and> ctx_total_size two_flat_context = sum_list (map Extent_TotalSize (ctx_extents two_flat_context))
   \<and> length (ctx_extents two_flat_context) = 2"
proof -
  have len: "length (ctx_extents two_flat_context) = 2" "ctx_extents two_flat_context \<noteq> []"
    by (simp_all add: two_flat_context_def)
  from GetVMDKContext_contiguous [OF two_flat_open] len show ?thesis
    using two_flat_open by auto
qed

section \<open>Reading: the end-of-file guard\<close>

lemma ReadAt_body_not_EOF:
  "ReadAt_body sc self offset blen arr i = Return (Inr (n, e, b)) \<Longrightarrow> e \<noteq> Some EOF"
  by (auto simp: ReadAt_body_def Let_def split: sum.splits if_splits prod.splits)

lemma ReadAt_loop_not_EOF:
  "ReadAt_loop sc self offset blen arr i = Inr (n, e, b) \<Longrightarrow> e \<noteq> Some EOF"
proof (induction sc self offset blen arr i rule: ReadAt_loop.induct)
  case (1 sc self offset blen arr i)
  from "1.prems" show ?case
    by (subst (asm) ReadAt_loop.simps)
      (auto split: if_splits step.splits dest: ReadAt_body_not_EOF "1.IH")
qed

lemmas read_eval = VMDKContext_ReadAt_def ReadAt_loop.simps ReadAt_body_def
  getExtentForOffset_def Search_def Search_loop.simps Let_def FlatExtent_ReadAt_def
  call_ReadAt_def reader_A_def FlatExtent_TotalSize_def FlatExtent_VirtualOffset_def
  eval_nat_numeral

text \<open>
  C1, as the code has it.  \<open>ReadAt\<close> answers \<open>(0, EOF)\<close>, the buffer untouched, for every
  offset below 0 or above \<open>total_size\<close>; for an offset from 0 to \<open>total_size\<close>, the offset
  \<open>total_size\<close> itself included, no answer of it carries \<open>EOF\<close>.
\<close>

theorem VMDKContext_ReadAt_EOF_guard:
  "(sint offset < 0 \<or> sint (ctx_total_size self) < sint offset
      \<longrightarrow> VMDKContext_ReadAt sc self buf offset = Inr (0, Some EOF, buf))
   \<and> (0 \<le> sint offset \<and> sint offset \<le> sint (ctx_total_size self)
      \<longrightarrow> (\<forall>n e b. VMDKContext_ReadAt sc self buf offset = Inr (n, e, b) \<longrightarrow> e \<noteq> Some EOF))"
  by (auto simp: VMDKContext_ReadAt_def Let_def dest: ReadAt_loop_not_EOF)

theorem VMDKContext_ReadAt_EOF_guard_witness:
  "VMDKContext_ReadAt no_sparse two_flat_context ''xxxxxxxx'' 1537 = Inr (0, Some EOF, ''xxxxxxxx'')
   \<and> VMDKContext_ReadAt no_sparse two_flat_context ''xxxxxxxx'' (- 1) = Inr (0, Some EOF, ''xxxxxxxx'')
   \<and> VMDKContext_ReadAt no_sparse two_flat_context ''xxxxxxxx'' 1536 \<noteq> Inr (0, Some EOF, ''xxxxxxxx'')
   \<and> ctx_total_size two_flat_context = 1536"
proof -
  have t: "ctx_total_size two_flat_context = 1536"
    by (simp add: two_flat_context_def)
  show ?thesis
    using VMDKContext_ReadAt_EOF_guard [of 1537 two_flat_context no_sparse "''xxxxxxxx''"]
      VMDKContext_ReadAt_EOF_guard [of "- 1" two_flat_context no_sparse "''xxxxxxxx''"]
      VMDKContext_ReadAt_EOF_guard [of 1536 two_flat_context no_sparse "''xxxxxxxx''"]
    by (auto simp: t)
qed

text \<open>
  At the offset \<open>total_size\<close> the guard lets the call through: on the context opened from
  the two-extent descriptor, a read of 8 bytes at 1536 answers \<open>(0, nil)\<close>.
\<close>

theorem VMDKContext_ReadAt_at_total_size:
  "GetVMDKContext no_sparse (descriptor_reader two_flat_descriptor) 200 opener_A
     = Inr two_flat_context
   \<and> VMDKContext_Size two_flat_context = 1536
   \<and> VMDKContext_ReadAt no_sparse two_flat_context ''xxxxxxxx'' 1536 = Inr (0, None, ''xxxxxxxx'')"
  by (simp add: two_flat_open VMDKContext_Size_def) (simp add: read_eval two_flat_context_def)

section \<open>Lookup\<close>

lemma Search_loop_spec:
  assumes "\<forall>a b. a \<le> b \<and> b < n \<and> f a \<longrightarrow> f b"
    and "\<forall>k<i. \<not> f k" and "\<forall>k. j \<le> k \<and> k < n \<longrightarrow> f k" and "i \<le> j" and "j \<le> n"
  shows "Search_loop f i j \<le> n
       \<and> (\<forall>k<Search_loop f i j. \<not> f k) \<and> (\<forall>k. Search_loop f i j \<le> k \<and> k < n \<longrightarrow> f k)"
  using assms
proof (induction f i j rule: Search_loop.induct)
  case (1 f i j)
  show ?case
  proof (cases "i < j")
    case False
    then have eq: "Search_loop f i j = i"
      by (subst Search_loop.simps) simp
    have ij: "i = j" using False "1.prems"(4) by simp
    have "i \<le> n" using ij "1.prems"(5) by simp
    moreover have "\<forall>k<i. \<not> f k" by (rule "1.prems"(2))
    moreover have "\<forall>k. i \<le> k \<and> k < n \<longrightarrow> f k" using "1.prems"(3) unfolding ij .
    ultimately show ?thesis unfolding eq by (intro conjI)
  next
    case True
    define h where "h = (i + j) div 2"
    have h: "i \<le> h" "h < j" using True by (auto simp: h_def)
    show ?thesis
    proof (cases "f h")
      case False
      have eq: "Search_loop f i j = Search_loop f (h + 1) j"
        using True False by (subst Search_loop.simps) (simp add: h_def Let_def)
      have below: "\<forall>k<h + 1. \<not> f k"
      proof (intro allI impI)
        fix k assume "k < h + 1"
        then have "k \<le> h" by simp
        moreover have "h < n" using h "1.prems" by simp
        ultimately show "\<not> f k" using False "1.prems"(1) by blast
      qed
      note IH1 = "1.IH"(1) [OF True h_def False "1.prems"(1) below "1.prems"(3)]
      from IH1 h "1.prems"(4,5) show ?thesis unfolding eq by simp
    next
      case fh: True
      have eq: "Search_loop f i j = Search_loop f i h"
        using True fh by (subst Search_loop.simps) (simp add: h_def Let_def)
      have above: "\<forall>k. h \<le> k \<and> k < n \<longrightarrow> f k"
        using fh "1.prems"(1) by blast
      note IH2 = "1.IH"(2) [OF True h_def _ "1.prems"(1) "1.prems"(2) above]
      from IH2 fh h "1.prems"(4,5) show ?thesis unfolding eq by simp
    qed
  qed
qed

lemma Search_spec:
  assumes "\<forall>a b. a \<le> b \<and> b < n \<and> f a \<longrightarrow> f b"
  shows "Search n f \<le> n \<and> (\<forall>k<Search n f. \<not> f k) \<and> (\<forall>k. Search n f \<le> k \<and> k < n \<longrightarrow> f k)"
proof -
  have a: "\<forall>k<0::nat. \<not> f k" by simp
  have b: "\<forall>k. n \<le> k \<and> k < n \<longrightarrow> f k" by auto
  show ?thesis
    unfolding Search_def by (rule Search_loop_spec [OF assms a b]) simp_all
qed


lemma laid_out_le: "laid_out s es t \<Longrightarrow> s \<le> t"
proof (induction es arbitrary: s)
  case Nil
  then show ?case by simp
next
  case (Cons e es)
  then have "s + sint (Extent_TotalSize e) \<le> t" by simp
  with Cons.prems show ?case by simp
qed

lemma laid_out_nth:
  "laid_out s es t \<Longrightarrow> k < length es \<Longrightarrow>
     s \<le> sint (Extent_VirtualOffset (es ! k)) \<and> 0 \<le> sint (Extent_TotalSize (es ! k))
     \<and> sint (Extent_VirtualOffset (es ! k)) + sint (Extent_TotalSize (es ! k)) \<le> t"
proof (induction es arbitrary: s k)
  case Nil
  then show ?case by simp
next
  case (Cons e es)
  show ?case
  proof (cases k)
    case 0
    with Cons.prems laid_out_le [of "s + sint (Extent_TotalSize e)" es t] show ?thesis by simp
  next
    case (Suc j)
    with Cons.prems Cons.IH [of "s + sint (Extent_TotalSize e)" j] show ?thesis by simp
  qed
qed

lemma laid_out_Suc:
  "laid_out s es t \<Longrightarrow> Suc k < length es \<Longrightarrow>
     sint (Extent_VirtualOffset (es ! Suc k)) =
       sint (Extent_VirtualOffset (es ! k)) + sint (Extent_TotalSize (es ! k))"
proof (induction es arbitrary: s k)
  case Nil
  then show ?case by simp
next
  case (Cons e es)
  show ?case
  proof (cases k)
    case 0
    with Cons.prems show ?thesis by (cases es) auto
  next
    case (Suc j)
    with Cons.prems Cons.IH [of "s + sint (Extent_TotalSize e)" j] show ?thesis by simp
  qed
qed

lemma laid_out_mono:
  assumes "laid_out s es t" and "a \<le> b" and "b < length es"
  shows "sint (Extent_VirtualOffset (es ! a)) \<le> sint (Extent_VirtualOffset (es ! b))"
  using assms(2,3)
proof (induction b rule: dec_induct)
  case base
  show ?case by simp
next
  case (step m)
  then have "sint (Extent_VirtualOffset (es ! a)) \<le> sint (Extent_VirtualOffset (es ! m))"
    by simp
  moreover have "sint (Extent_VirtualOffset (es ! m)) \<le> sint (Extent_VirtualOffset (es ! Suc m))"
    using laid_out_Suc [OF assms(1) step.prems] laid_out_nth [OF assms(1), of m] step.prems
    by simp
  ultimately show ?case by simp
qed

lemma laid_out_last:
  "laid_out s es t \<Longrightarrow> es \<noteq> [] \<Longrightarrow>
     sint (Extent_VirtualOffset (last es)) + sint (Extent_TotalSize (last es)) = t"
  by (induction es arbitrary: s) auto

lemma sint64_add_nonneg:
  "0 \<le> sint (a :: int64) \<Longrightarrow> 0 \<le> sint b \<Longrightarrow> sint a + sint b < 2 ^ 63
     \<Longrightarrow> sint (a + b) = sint a + sint b"
  by (simp add: sint64_add)


lemma lookup_index:
  assumes lo: "laid_out 0 es T"
  shows "Search (length es) (\<lambda>i. sint off < sint (Extent_VirtualOffset (es ! i))) \<le> length es"
    and "\<forall>k<Search (length es) (\<lambda>i. sint off < sint (Extent_VirtualOffset (es ! i))).
           sint (Extent_VirtualOffset (es ! k)) \<le> sint off"
    and "\<forall>k. Search (length es) (\<lambda>i. sint off < sint (Extent_VirtualOffset (es ! i))) \<le> k
              \<and> k < length es
            \<longrightarrow> sint off < sint (Extent_VirtualOffset (es ! k))"
proof -
  let ?f = "\<lambda>i. sint off < sint (Extent_VirtualOffset (es ! i))"
  have mono: "\<forall>a b. a \<le> b \<and> b < length es \<and> ?f a \<longrightarrow> ?f b"
  proof (intro allI impI)
    fix a b assume "a \<le> b \<and> b < length es \<and> ?f a"
    then show "?f b"
      using laid_out_mono [OF lo, of a b] by simp
  qed
  from Search_spec [OF mono]
  show "Search (length es) ?f \<le> length es"
    and "\<forall>k<Search (length es) ?f. sint (Extent_VirtualOffset (es ! k)) \<le> sint off"
    and "\<forall>k. Search (length es) ?f \<le> k \<and> k < length es
            \<longrightarrow> sint off < sint (Extent_VirtualOffset (es ! k))"
    by (simp_all add: not_less)
qed

lemma getExtentForOffset_eq:
  "getExtentForOffset self off =
     (let es = ctx_extents self;
          n = Search (length es) (\<lambda>i. sint off < sint (Extent_VirtualOffset (es ! i)))
      in if n < 1 \<or> length es < n then Inl EOF
         else if sint off < sint (Extent_VirtualOffset (es ! (n - 1))) \<or>
                 sint (Extent_VirtualOffset (es ! (n - 1)) + Extent_TotalSize (es ! (n - 1)))
                   < sint off
              then Inl EOF else Inr (es ! (n - 1)))"
  by (simp add: getExtentForOffset_def Let_def)

lemma laid_out_end_sint:
  assumes lo: "laid_out 0 es (sint (T :: int64))" and k: "k < length es"
  shows "sint (Extent_VirtualOffset (es ! k) + Extent_TotalSize (es ! k)) =
           sint (Extent_VirtualOffset (es ! k)) + sint (Extent_TotalSize (es ! k))"
proof -
  from laid_out_nth [OF lo k] sint64_range [of T]
  show ?thesis by (intro sint64_add_nonneg) auto
qed

lemma lookup_inside:
  assumes lo: "laid_out 0 (ctx_extents self) (sint (ctx_total_size self))"
    and k: "k < length (ctx_extents self)"
    and ge: "sint (Extent_VirtualOffset (ctx_extents self ! k)) \<le> sint off"
    and lt: "sint off < sint (Extent_VirtualOffset (ctx_extents self ! k))
                         + sint (Extent_TotalSize (ctx_extents self ! k))"
  shows "getExtentForOffset self off = Inr (ctx_extents self ! k)"
proof -
  let ?es = "ctx_extents self"
  let ?n = "Search (length ?es) (\<lambda>i. sint off < sint (Extent_VirtualOffset (?es ! i)))"
  note idx = lookup_index [OF lo, of off]
  have "k < ?n"
  proof (rule ccontr)
    assume "\<not> k < ?n"
    then have "sint off < sint (Extent_VirtualOffset (?es ! k))"
      using idx(3) k by simp
    with ge show False by simp
  qed
  moreover have "?n \<le> Suc k"
  proof (cases "Suc k < length ?es")
    case True
    have "sint off < sint (Extent_VirtualOffset (?es ! Suc k))"
      using laid_out_Suc [OF lo True] lt by simp
    then have "\<not> Suc k < ?n" using idx(2) by force
    then show ?thesis by simp
  next
    case False
    with k idx(1) show ?thesis by simp
  qed
  ultimately have n: "?n = Suc k" by simp
  have "\<not> sint (Extent_VirtualOffset (?es ! k) + Extent_TotalSize (?es ! k)) < sint off"
    using laid_out_end_sint [OF lo k] lt by simp
  with n k ge show ?thesis
    by (simp add: getExtentForOffset_eq Let_def)
qed

lemma lookup_at_end:
  assumes lo: "laid_out 0 (ctx_extents self) (sint (ctx_total_size self))"
    and ne: "ctx_extents self \<noteq> []"
  shows "getExtentForOffset self (ctx_total_size self) = Inr (last (ctx_extents self))"
proof -
  let ?es = "ctx_extents self"
  let ?off = "ctx_total_size self"
  let ?n = "Search (length ?es) (\<lambda>i. sint ?off < sint (Extent_VirtualOffset (?es ! i)))"
  note idx = lookup_index [OF lo, of ?off]
  have "\<not> ?n < length ?es"
  proof
    assume a: "?n < length ?es"
    then have "sint ?off < sint (Extent_VirtualOffset (?es ! ?n))"
      using idx(3) by simp
    moreover have "sint (Extent_VirtualOffset (?es ! ?n)) \<le> sint ?off"
      using laid_out_nth [OF lo a] by simp
    ultimately show False by simp
  qed
  with idx(1) have n: "?n = length ?es" by simp
  have k: "length ?es - 1 < length ?es" using ne by simp
  have l: "?es ! (length ?es - 1) = last ?es" using ne by (simp add: last_conv_nth)
  have "sint (Extent_VirtualOffset (last ?es) + Extent_TotalSize (last ?es)) = sint ?off"
    using laid_out_end_sint [OF lo k] laid_out_last [OF lo ne] unfolding l by simp
  moreover have "sint (Extent_VirtualOffset (last ?es)) \<le> sint ?off"
    using laid_out_nth [OF lo k] unfolding l by simp
  moreover have "?es ! (length ?es - Suc 0) = last ?es"
    using l by simp
  ultimately show ?thesis
    using n ne by (simp add: getExtentForOffset_eq Let_def)
qed

lemma lookup_outside:
  assumes lo: "laid_out 0 (ctx_extents self) (sint (ctx_total_size self))"
    and out: "ctx_extents self = [] \<or> sint off < 0 \<or> sint (ctx_total_size self) < sint off"
  shows "getExtentForOffset self off = Inl EOF"
proof (cases "ctx_extents self = []")
  case True
  have "Search 0 f = 0" for f :: "nat \<Rightarrow> bool"
    by (simp add: Search_def Search_loop.simps)
  with True show ?thesis by (simp add: getExtentForOffset_eq Let_def)
next
  case ne: False
  let ?es = "ctx_extents self"
  let ?n = "Search (length ?es) (\<lambda>i. sint off < sint (Extent_VirtualOffset (?es ! i)))"
  note idx = lookup_index [OF lo, of off]
  from ne out consider "sint off < 0" | "sint (ctx_total_size self) < sint off" by blast
  then show ?thesis
  proof cases
    case 1
    have "\<not> 0 < ?n"
    proof
      assume "0 < ?n"
      then have "sint (Extent_VirtualOffset (?es ! 0)) \<le> sint off" using idx(2) by simp
      moreover have "0 \<le> sint (Extent_VirtualOffset (?es ! 0))"
        using laid_out_nth [OF lo, of 0] ne by simp
      ultimately show False using 1 by simp
    qed
    then show ?thesis by (simp add: getExtentForOffset_eq Let_def)
  next
    case 2
    have k: "length ?es - 1 < length ?es" using ne by simp
    have l: "?es ! (length ?es - 1) = last ?es" using ne by (simp add: last_conv_nth)
    have "\<not> ?n < length ?es"
    proof
      assume a: "?n < length ?es"
      then have "sint off < sint (Extent_VirtualOffset (?es ! ?n))"
        using idx(3) by simp
      moreover have "sint (Extent_VirtualOffset (?es ! ?n)) \<le> sint (ctx_total_size self)"
        using laid_out_nth [OF lo a] by simp
      ultimately show False using 2 by simp
    qed
    with idx(1) have n: "?n = length ?es" by simp
    have "sint (Extent_VirtualOffset (last ?es) + Extent_TotalSize (last ?es))
            = sint (ctx_total_size self)"
      using laid_out_end_sint [OF lo k] laid_out_last [OF lo ne] unfolding l by simp
    moreover have "?es ! (length ?es - Suc 0) = last ?es"
      using l by simp
    ultimately show ?thesis
      using 2 n by (simp add: getExtentForOffset_eq Let_def)
  qed
qed

lemma laid_out_covers:
  "laid_out s es t \<Longrightarrow> s \<le> x \<Longrightarrow> x < t \<Longrightarrow>
     \<exists>k<length es. sint (Extent_VirtualOffset (es ! k)) \<le> x
        \<and> x < sint (Extent_VirtualOffset (es ! k)) + sint (Extent_TotalSize (es ! k))"
proof (induction es arbitrary: s)
  case Nil
  then show ?case by simp
next
  case (Cons e es)
  show ?case
  proof (cases "x < s + sint (Extent_TotalSize e)")
    case True
    with Cons.prems have "sint (Extent_VirtualOffset ((e # es) ! 0)) \<le> x
        \<and> x < sint (Extent_VirtualOffset ((e # es) ! 0)) + sint (Extent_TotalSize ((e # es) ! 0))"
      by simp
    then show ?thesis by blast
  next
    case False
    with Cons.prems Cons.IH [of "s + sint (Extent_TotalSize e)"]
    obtain k where "k < length es" "sint (Extent_VirtualOffset (es ! k)) \<le> x"
      "x < sint (Extent_VirtualOffset (es ! k)) + sint (Extent_TotalSize (es ! k))"
      by auto
    then have "Suc k < length (e # es) \<and> sint (Extent_VirtualOffset ((e # es) ! Suc k)) \<le> x
        \<and> x < sint (Extent_VirtualOffset ((e # es) ! Suc k))
              + sint (Extent_TotalSize ((e # es) ! Suc k))"
      by simp
    then show ?thesis by blast
  qed
qed

lemma lookup_found:
  assumes lo: "laid_out 0 (ctx_extents self) (sint (ctx_total_size self))"
    and found: "getExtentForOffset self off = Inr e"
  shows "\<exists>k<length (ctx_extents self). e = ctx_extents self ! k
           \<and> sint (Extent_VirtualOffset e) \<le> sint off
           \<and> sint off \<le> sint (Extent_VirtualOffset e) + sint (Extent_TotalSize e)"
proof -
  let ?es = "ctx_extents self"
  let ?n = "Search (length ?es) (\<lambda>i. sint off < sint (Extent_VirtualOffset (?es ! i)))"
  from found have n: "1 \<le> ?n" "?n \<le> length ?es" and e: "e = ?es ! (?n - 1)"
    and ge: "sint (Extent_VirtualOffset (?es ! (?n - 1))) \<le> sint off"
    and le: "sint off \<le> sint (Extent_VirtualOffset (?es ! (?n - 1)) + Extent_TotalSize (?es ! (?n - 1)))"
    by (auto simp: getExtentForOffset_eq Let_def not_less split: if_splits)
  have k: "?n - 1 < length ?es" using n by simp
  from laid_out_end_sint [OF lo k] ge le e k show ?thesis by auto
qed

text \<open>
  C6, as the code has it.  In a context whose extents tile the range from 0 to
  \<open>total_size\<close>: the lookup answers extent \<open>k\<close> for every offset with
  \<open>extents[k].virtual_offset \<le> offset < extents[k].virtual_offset + extents[k].total_size\<close>;
  at the offset \<open>total_size\<close>, the upper bound of the last extent, it answers the last
  extent; below 0, above \<open>total_size\<close>, or with no extent at all, it signals \<open>EOF\<close>; and
  an extent it answers is one of the list that holds the offset or ends at it.  (By
  \<open>laid_out_covers\<close> every offset from 0 to below \<open>total_size\<close> is in some extent, so these
  cases are all there are.)
\<close>

theorem getExtentForOffset_laid_out:
  assumes "laid_out 0 (ctx_extents self) (sint (ctx_total_size self))"
  shows "(\<forall>k. k < length (ctx_extents self)
              \<and> sint (Extent_VirtualOffset (ctx_extents self ! k)) \<le> sint off
              \<and> sint off < sint (Extent_VirtualOffset (ctx_extents self ! k))
                             + sint (Extent_TotalSize (ctx_extents self ! k))
            \<longrightarrow> getExtentForOffset self off = Inr (ctx_extents self ! k))
       \<and> (ctx_extents self \<noteq> [] \<and> off = ctx_total_size self
            \<longrightarrow> getExtentForOffset self off = Inr (last (ctx_extents self)))
       \<and> (ctx_extents self = [] \<or> sint off < 0 \<or> sint (ctx_total_size self) < sint off
            \<longrightarrow> getExtentForOffset self off = Inl EOF)
       \<and> (\<forall>e. getExtentForOffset self off = Inr e
            \<longrightarrow> (\<exists>k<length (ctx_extents self). e = ctx_extents self ! k
                   \<and> sint (Extent_VirtualOffset e) \<le> sint off
                   \<and> sint off \<le> sint (Extent_VirtualOffset e) + sint (Extent_TotalSize e)))"
  using lookup_inside [OF assms, of _ off] lookup_at_end [OF assms]
    lookup_outside [OF assms, of off] lookup_found [OF assms, of off]
  by blast

lemma two_flat_laid_out:
  "laid_out 0 (ctx_extents two_flat_context) (sint (ctx_total_size two_flat_context))"
  by (simp add: two_flat_context_def FlatExtent_VirtualOffset_def FlatExtent_TotalSize_def)

theorem getExtentForOffset_laid_out_witness:
  "laid_out 0 (ctx_extents two_flat_context) (sint (ctx_total_size two_flat_context))
   \<and> getExtentForOffset two_flat_context 600 = Inr (ctx_extents two_flat_context ! 1)
   \<and> getExtentForOffset two_flat_context 0 = Inr (ctx_extents two_flat_context ! 0)
   \<and> getExtentForOffset two_flat_context (ctx_total_size two_flat_context)
       = Inr (last (ctx_extents two_flat_context))
   \<and> getExtentForOffset two_flat_context 1537 = Inl EOF"
proof -
  have es: "ctx_extents two_flat_context \<noteq> []" "length (ctx_extents two_flat_context) = 2"
    and vo: "sint (Extent_VirtualOffset (ctx_extents two_flat_context ! 1)) = 512"
            "sint (Extent_TotalSize (ctx_extents two_flat_context ! 1)) = 1024"
            "sint (Extent_VirtualOffset (ctx_extents two_flat_context ! 0)) = 0"
            "sint (Extent_TotalSize (ctx_extents two_flat_context ! 0)) = 512"
    and t: "sint (ctx_total_size two_flat_context) = 1536"
    by (simp_all add: two_flat_context_def FlatExtent_VirtualOffset_def FlatExtent_TotalSize_def)
  note th = getExtentForOffset_laid_out [OF two_flat_laid_out]
  have "getExtentForOffset two_flat_context 600 = Inr (ctx_extents two_flat_context ! 1)"
    using th [of 600] es vo by simp
  moreover have "getExtentForOffset two_flat_context 0 = Inr (ctx_extents two_flat_context ! 0)"
    using th [of 0] es vo by simp
  moreover have "getExtentForOffset two_flat_context (ctx_total_size two_flat_context)
                   = Inr (last (ctx_extents two_flat_context))"
    using th [of "ctx_total_size two_flat_context"] es by simp
  moreover have "getExtentForOffset two_flat_context 1537 = Inl EOF"
    using th [of 1537] t by simp
  ultimately show ?thesis using two_flat_laid_out by simp
qed

text \<open>
  The offset equal to the upper bound of the last extent is looked up with success:
  \<open>virtual_offset+extent_size < offset\<close> is false there.
\<close>

theorem getExtentForOffset_upper_bound:
  "Extent_VirtualOffset (last (ctx_extents two_flat_context))
     + Extent_TotalSize (last (ctx_extents two_flat_context)) = 1536
   \<and> getExtentForOffset two_flat_context 1536 = Inr (last (ctx_extents two_flat_context))"
  by (simp add: getExtentForOffset_def Search_def Search_loop.simps Let_def
      two_flat_context_def FlatExtent_VirtualOffset_def FlatExtent_TotalSize_def)

section \<open>Reading: the zero fill on a failed lookup\<close>

lemma wrapped_open:
  "GetVMDKContext no_sparse (descriptor_reader wrapped_descriptor) 200 opener_A
     = Inr wrapped_context"
  by (simp add: open_eval wrapped_descriptor_def descriptor_reader_def wrapped_context_def
      opener_A_def)

lemmas read_sym = VMDKContext_ReadAt_def ReadAt_loop.simps ReadAt_body_def
  getExtentForOffset_def Search_def Search_loop.simps Let_def FlatExtent_ReadAt_def
  call_ReadAt_def reader_A_def FlatExtent_TotalSize_def FlatExtent_VirtualOffset_def

text \<open>
  What the loop does when the lookup fails, whatever the progress \<open>i\<close>: it zeroes the
  clamped buffer from its first byte and answers its length.
\<close>

lemma ReadAt_body_lookup_fails:
  assumes "getExtentForOffset self (offset + of_nat i) = Inl err"
  shows "ReadAt_body sc self offset blen arr i =
           Return (Inr (blen, None, replicate blen (CHR 0x00) @ drop blen arr))"
  using assms by (simp add: ReadAt_body_def)

text \<open>
  C7.  On the context opened from \<open>wrapped_descriptor\<close> (\<open>total_size\<close> 512), a read of 2048
  bytes at 0 writes 1024 bytes of the first extent, then fails to look up offset 1024.
  The call answers \<open>(512, nil)\<close>; of the 1024 bytes written the first 512 are zero again,
  and nothing past them is zeroed.  On a context put together with overlapping extents
  a read of 8 bytes writes 4, the lookup of offset 4 fails, and all 8 bytes are zero.
\<close>

theorem VMDKContext_ReadAt_zero_fill_from_start:
  "GetVMDKContext no_sparse (descriptor_reader wrapped_descriptor) 200 opener_A
     = Inr wrapped_context
   \<and> VMDKContext_ReadAt no_sparse wrapped_context (replicate 2048 (CHR ''x'')) 0
       = Inr (512, None,
              replicate 512 (CHR 0x00) @ replicate 512 (CHR ''A'') @ replicate 1024 (CHR ''x''))
   \<and> VMDKContext_ReadAt no_sparse overlapping_context ''xxxxxxxx'' 0
       = Inr (8, None, replicate 8 (CHR 0x00))"
proof -
  have "VMDKContext_ReadAt no_sparse wrapped_context (replicate 2048 (CHR ''x'')) 0
          = Inr (512, None,
                 replicate 512 (CHR 0x00) @ replicate 512 (CHR ''A'') @ replicate 1024 (CHR ''x''))"
    by (simp add: read_sym wrapped_context_def)
  moreover have "VMDKContext_ReadAt no_sparse overlapping_context ''xxxxxxxx'' 0
                   = Inr (8, None, replicate 8 (CHR 0x00))"
    by (simp add: read_eval overlapping_context_def)
  ultimately show ?thesis using wrapped_open by simp
qed

section \<open>Closing\<close>

lemma Extent_Close_append: "Extent_Close sc e tr = tr @ Extent_Close sc e []"
  by (cases e) (simp_all add: FlatExtent_Close_def split: option.splits)

lemma Close_loop_append:
  "Close_loop sc es tr = tr @ concat (map (\<lambda>e. Extent_Close sc e []) es)"
proof (induction es arbitrary: tr)
  case Nil
  show ?case by simp
next
  case (Cons e es)
  have "Close_loop sc (e # es) tr = Close_loop sc es (tr @ Extent_Close sc e [])"
    using Extent_Close_append [of sc e tr] by simp
  then show ?case by (simp add: Cons.IH)
qed

text \<open>
  C8, as the code has it.  \<open>FlatExtent.Close\<close> runs the closer it holds at every call: two
  calls run it twice.  Closing the context runs the \<open>Close\<close> of every extent once, in the
  order of the list.
\<close>

theorem Close_runs_every_time:
  "FlatExtent_Close (e\<lparr> fe_closer := Some c \<rparr>) (FlatExtent_Close (e\<lparr> fe_closer := Some c \<rparr>) tr)
     = tr @ [c, c]
   \<and> VMDKContext_Close sc self tr
       = tr @ concat (map (\<lambda>x. Extent_Close sc x []) (ctx_extents self))"
  by (simp add: FlatExtent_Close_def VMDKContext_Close_def Close_loop_append)

text \<open>
  Closing twice is not closing once: the first extent of the two-extent context, closed
  once and closed twice; and the context itself, whose \<open>Close\<close> runs both closers in order.
\<close>

theorem Close_twice_differs:
  "Extent_Close no_sparse (ctx_extents two_flat_context ! 0) [] = [1]
   \<and> Extent_Close no_sparse (ctx_extents two_flat_context ! 0)
       (Extent_Close no_sparse (ctx_extents two_flat_context ! 0) []) = [1, 1]
   \<and> VMDKContext_Close no_sparse two_flat_context [] = [1, 2]"
  by (simp add: two_flat_context_def FlatExtent_Close_def VMDKContext_Close_def)

section \<open>Extent lines\<close>

lemma span_run:
  "list_all P xs \<Longrightarrow> \<not> P y \<Longrightarrow> takeWhile P (xs @ y # ys) = xs"
  "list_all P xs \<Longrightarrow> \<not> P y \<Longrightarrow> dropWhile P (xs @ y # ys) = y # ys"
  by (induction xs) auto

lemma not_in_class [simp]:
  "\<not> is_digit (CHR '' '')" "\<not> is_upper (CHR '' '')" "CHR '' '' \<noteq> quote"
  by (simp_all add: is_digit_def is_upper_def quote_def)

lemma ExtentRegex_at_complete:
  assumes "mode = ''RW'' \<or> mode = ''R''"
    and "ds \<noteq> []" "list_all is_digit ds"
    and "kind \<noteq> []" "list_all is_upper kind"
    and "name \<noteq> []" "list_all (\<lambda>c. c \<noteq> quote) name"
  shows "ExtentRegex_at (mode @ '' '' @ ds @ '' '' @ kind @ [CHR '' '', quote] @ name @ [quote] @ rest)
           = Some [mode @ '' '' @ ds @ '' '' @ kind @ [CHR '' '', quote] @ name @ [quote]
                     @ (if HasPrefix rest '' '' \<and> takeWhile is_digit (drop 1 rest) \<noteq> []
                        then '' '' @ takeWhile is_digit (drop 1 rest) else []),
                   mode, ds, kind, name,
                   (if HasPrefix rest '' '' then takeWhile is_digit (drop 1 rest) else [])]"
proof -
  let ?tail3 = "name @ quote # rest"
  let ?tail2 = "kind @ CHR '' '' # quote # ?tail3"
  let ?tail1 = "ds @ CHR '' '' # ?tail2"
  have d: "takeWhile is_digit ?tail1 = ds" "dropWhile is_digit ?tail1 = CHR '' '' # ?tail2"
    using assms(3) by (simp_all add: span_run)
  have k: "takeWhile is_upper ?tail2 = kind"
          "dropWhile is_upper ?tail2 = CHR '' '' # quote # ?tail3"
    using assms(5) by (simp_all add: span_run)
  have n: "takeWhile (\<lambda>c. c \<noteq> quote) ?tail3 = name"
          "dropWhile (\<lambda>c. c \<noteq> quote) ?tail3 = quote # rest"
    using assms(7) by (simp_all add: span_run)
  from assms(1) show ?thesis
  proof
    assume m: "mode = ''RW''"
    show ?thesis
      using assms(2,4,6) by (simp add: m ExtentRegex_at_def ExtentRegex_fields_def HasPrefix_def Let_def d k n)
  next
    assume m: "mode = ''R''"
    show ?thesis
      using assms(2,4,6) by (simp add: m ExtentRegex_at_def ExtentRegex_fields_def HasPrefix_def Let_def d k n)
  qed
qed


lemma HasPrefixD: "HasPrefix s p \<Longrightarrow> length p = n \<Longrightarrow> s = p @ drop n s"
  by (metis HasPrefix_def append_take_drop_id)

lemma list_all_takeWhile: "list_all P (takeWhile P xs)"
  by (induction xs) auto

lemma ExtentRegex_at_sound:
  assumes "ExtentRegex_at s = Some m"
  shows "\<exists>mode ds kind name rest.
           s = mode @ '' '' @ ds @ '' '' @ kind @ [CHR '' '', quote] @ name @ [quote] @ rest
           \<and> (mode = ''RW'' \<or> mode = ''R'')
           \<and> ds \<noteq> [] \<and> list_all is_digit ds
           \<and> kind \<noteq> [] \<and> list_all is_upper kind
           \<and> name \<noteq> [] \<and> list_all (\<lambda>c. c \<noteq> quote) name
           \<and> length m = 6 \<and> m ! 1 = mode \<and> m ! 2 = ds \<and> m ! 3 = kind \<and> m ! 4 = name
           \<and> m ! 5 = (if HasPrefix rest '' '' then takeWhile is_digit (drop 1 rest) else [])"
proof -
  obtain g1 s1 where g1: "(g1 = ''RW'' \<or> g1 = ''R'')" and s: "s = g1 @ '' '' @ s1"
    and rest1: "ExtentRegex_fields g1 s1 = Some m"
  proof (cases "HasPrefix s ''RW ''")
    case True
    then have "s = ''RW'' @ '' '' @ drop 3 s"
      using HasPrefixD [of s "''RW ''" 3] by simp
    with assms True that [of "''RW''" "drop 3 s"] show ?thesis
      by (simp add: ExtentRegex_at_def)
  next
    case False
    with assms have R: "HasPrefix s ''R ''"
      by (auto simp: ExtentRegex_at_def split: if_splits)
    then have "s = ''R'' @ '' '' @ drop 2 s"
      using HasPrefixD [of s "''R ''" 2] by simp
    with False R assms that [of "''R''" "drop 2 s"] show ?thesis
      by (simp add: ExtentRegex_at_def)
  qed
  define g2 where "g2 = takeWhile is_digit s1"
  define s2 where "s2 = dropWhile is_digit s1"
  define g3 where "g3 = takeWhile is_upper (drop 1 s2)"
  define s3 where "s3 = dropWhile is_upper (drop 1 s2)"
  define g4 where "g4 = takeWhile (\<lambda>c. c \<noteq> quote) (drop 2 s3)"
  define s4 where "s4 = dropWhile (\<lambda>c. c \<noteq> quote) (drop 2 s3)"
  define g5 where "g5 = (if HasPrefix (drop 1 s4) '' '' then takeWhile is_digit (drop 1 (drop 1 s4)) else [])"
  from rest1 have ok: "g2 \<noteq> []" "HasPrefix s2 '' ''" "g3 \<noteq> []" "HasPrefix s3 [CHR '' '', quote]"
      "g4 \<noteq> []" "s4 \<noteq> []"
    and m: "m = [g1 @ '' '' @ g2 @ '' '' @ g3 @ [CHR '' '', quote] @ g4 @ [quote]
                   @ (if g5 = [] then [] else '' '' @ g5), g1, g2, g3, g4, g5]"
    by (auto simp: ExtentRegex_fields_def Let_def g2_def s2_def g3_def s3_def g4_def s4_def g5_def
        split: if_splits)
  have e1: "s1 = g2 @ s2" by (simp add: g2_def s2_def)
  have e2: "s2 = '' '' @ g3 @ s3"
    using HasPrefixD [OF ok(2), of 1] by (simp add: g3_def s3_def)
  have e3: "s3 = [CHR '' '', quote] @ g4 @ s4"
    using HasPrefixD [OF ok(4), of 2] by (simp add: g4_def s4_def)
  have "hd s4 = quote"
    using ok(6) hd_dropWhile [of "\<lambda>c. c \<noteq> quote" "drop 2 s3"] by (simp add: s4_def)
  then have e4: "s4 = [quote] @ drop 1 s4"
    using ok(6) by (cases s4) auto
  have "s = g1 @ '' '' @ g2 @ '' '' @ g3 @ [CHR '' '', quote] @ g4 @ [quote] @ drop 1 s4"
    using s e1 e2 e3 e4 by (metis append.assoc)
  moreover have "list_all is_digit g2" "list_all is_upper g3" "list_all (\<lambda>c. c \<noteq> quote) g4"
    by (simp_all add: g2_def g3_def g4_def list_all_takeWhile)
  ultimately show ?thesis
    using g1 ok m by (intro exI [of _ g1] exI [of _ g2] exI [of _ g3] exI [of _ g4] exI [of _ "drop 1 s4"])
      (simp add: g5_def)
qed


lemma ExtentRegex_at_iff: "(\<exists>m. ExtentRegex_at s = Some m) \<longleftrightarrow> ExtentRegex_matches_at s"
proof
  assume "\<exists>m. ExtentRegex_at s = Some m"
  then obtain m where "ExtentRegex_at s = Some m" ..
  from ExtentRegex_at_sound [OF this] show "ExtentRegex_matches_at s"
    unfolding ExtentRegex_matches_at_def by blast
next
  assume "ExtentRegex_matches_at s"
  then obtain mode ds kind name rest where
    "s = mode @ '' '' @ ds @ '' '' @ kind @ [CHR '' '', quote] @ name @ [quote] @ rest"
    "mode = ''RW'' \<or> mode = ''R''" "ds \<noteq> []" "list_all is_digit ds"
    "kind \<noteq> []" "list_all is_upper kind" "name \<noteq> []" "list_all (\<lambda>c. c \<noteq> quote) name"
    unfolding ExtentRegex_matches_at_def by blast
  with ExtentRegex_at_complete [of mode ds kind name rest]
  show "\<exists>m. ExtentRegex_at s = Some m" by simp
qed

lemma ExtentRegex_matches_Nil: "ExtentRegex_matches [] \<longleftrightarrow> ExtentRegex_matches_at []"
  by (simp add: ExtentRegex_matches_def)

lemma ExtentRegex_matches_Cons:
  "ExtentRegex_matches (c # cs) \<longleftrightarrow> ExtentRegex_matches_at (c # cs) \<or> ExtentRegex_matches cs"
proof
  assume "ExtentRegex_matches (c # cs)"
  then obtain pre s where ps: "c # cs = pre @ s" "ExtentRegex_matches_at s"
    unfolding ExtentRegex_matches_def by blast
  show "ExtentRegex_matches_at (c # cs) \<or> ExtentRegex_matches cs"
  proof (cases pre)
    case Nil
    with ps show ?thesis by simp
  next
    case (Cons a pre')
    with ps have "cs = pre' @ s" by simp
    with ps(2) show ?thesis unfolding ExtentRegex_matches_def by blast
  qed
next
  assume "ExtentRegex_matches_at (c # cs) \<or> ExtentRegex_matches cs"
  then show "ExtentRegex_matches (c # cs)"
  proof
    assume "ExtentRegex_matches_at (c # cs)"
    then have "c # cs = [] @ (c # cs) \<and> ExtentRegex_matches_at (c # cs)" by simp
    then show ?thesis unfolding ExtentRegex_matches_def by blast
  next
    assume "ExtentRegex_matches cs"
    then obtain pre s where "cs = pre @ s" "ExtentRegex_matches_at s"
      unfolding ExtentRegex_matches_def by blast
    then have "c # cs = (c # pre) @ s \<and> ExtentRegex_matches_at s" by simp
    then show ?thesis unfolding ExtentRegex_matches_def by blast
  qed
qed

text \<open>The scanner finds a match exactly in the lines that hold one.\<close>

lemma FindStringSubmatch_iff:
  "(\<exists>m. FindStringSubmatch line = Some m) \<longleftrightarrow> ExtentRegex_matches line"
proof (induction line)
  case Nil
  show ?case using ExtentRegex_at_iff [of "[]"] by (simp add: ExtentRegex_matches_Nil)
next
  case (Cons c cs)
  show ?case
  proof (cases "ExtentRegex_at (c # cs)")
    case None
    then have "\<not> ExtentRegex_matches_at (c # cs)"
      using ExtentRegex_at_iff [of "c # cs"] by simp
    with None Cons.IH show ?thesis by (simp add: ExtentRegex_matches_Cons)
  next
    case (Some m)
    then have "ExtentRegex_matches_at (c # cs)"
      using ExtentRegex_at_iff [of "c # cs"] by blast
    with Some show ?thesis by (simp add: ExtentRegex_matches_Cons)
  qed
qed

lemma FindStringSubmatch_None_iff:
  "FindStringSubmatch line = None \<longleftrightarrow> \<not> ExtentRegex_matches line"
  using FindStringSubmatch_iff [of line] by auto

lemma FindStringSubmatch_at:
  "FindStringSubmatch line = Some m \<Longrightarrow> \<exists>pre s. line = pre @ s \<and> ExtentRegex_at s = Some m"
proof (induction line)
  case Nil
  then show ?case by simp
next
  case (Cons c cs)
  show ?case
  proof (cases "ExtentRegex_at (c # cs)")
    case None
    with Cons obtain pre s where "cs = pre @ s" "ExtentRegex_at s = Some m" by auto
    then have "c # cs = (c # pre) @ s \<and> ExtentRegex_at s = Some m" by simp
    then show ?thesis by blast
  next
    case (Some m')
    with Cons.prems have "c # cs = [] @ (c # cs) \<and> ExtentRegex_at (c # cs) = Some m" by simp
    then show ?thesis by blast
  qed
qed

lemma process_line_Extents_unfold:
  assumes "\<not> MatchString StartDescriptorRegex (TrimSpace raw)"
    and "\<not> MatchString StartExtentRegex (TrimSpace raw)"
    and "\<not> MatchString StartDiskDataBaseRegex (TrimSpace raw)"
  shows "process_line sc opener (''Extents'', res) raw =
     (case FindStringSubmatch (TrimSpace raw) of
                None \<Rightarrow> Inr ([], res)
              | Some match \<Rightarrow>
                  (case opener (match ! 4) of
                        Inl err \<Rightarrow> Inl (Error err)
                      | Inr (reader, closer) \<Rightarrow>
                          if match ! 3 = ''SPARSE'' then
                            (case GetSparseExtent sc reader of
                               Inl err \<Rightarrow>
                                 Inl (Error (WrapError (''While opening '' @ match ! 4) err))
                             | Inr extent0 \<Rightarrow>
                                  Inr (''Extents'',
                                       res\<lparr> ctx_total_size :=
                                                ctx_total_size res + se_total_size extent0,
                                             ctx_extents := ctx_extents res @
                                               [Sparse (extent0\<lparr> se_offset := ctx_total_size res,
                                                         se_closer := closer,
                                                         se_filename := match ! 4 \<rparr>)] \<rparr>))
                          else if match ! 3 = ''FLAT'' then
                            (case ParseInt (match ! 2) of
                               Inl p \<Rightarrow> Inl (Panic p)
                             | Inr sectors \<Rightarrow>
                                 (case ParseInt (match ! 5) of
                                    Inl p \<Rightarrow> Inl (Panic p)
                                  | Inr offsetSectors \<Rightarrow>
                                      (case GetFlatExtent reader (match ! 4) offsetSectors
                                              sectors (ctx_total_size res) closer of
                                         Inl err \<Rightarrow>
                                           Inl (Error (WrapError
                                             (''While opening flat extent '' @ match ! 4) err))
                                       | Inr extent \<Rightarrow>
                                           Inr (''Extents'',
                                             res\<lparr> ctx_total_size :=
                                                      ctx_total_size res + FlatExtent_TotalSize extent,
                                                   ctx_extents := ctx_extents res @ [Flat extent] \<rparr>))))
                          else Inl (Error (ErrorString (''Unsupported extent type '' @ match ! 3)))))"
  using assms
  by (simp add: process_line_def Let_def split: option.splits sum.splits prod.splits)

text \<open>
  C9, as the code has it.  A line read in the \<open>Extents\<close> state that is not one of the three
  section headers is trimmed and searched for \<open>ExtentRegex\<close>, which is not anchored and
  separates its fields by single spaces.  When the trimmed line holds a match anywhere,
  the line is an extent declaration: unless opening it fails, one extent is appended
  and the state stays \<open>Extents\<close>.  When it holds none, the state becomes the initial
  one and the context is as before.
\<close>

theorem process_line_Extents_regex:
  assumes "\<not> MatchString StartDescriptorRegex (TrimSpace raw)"
    and "\<not> MatchString StartExtentRegex (TrimSpace raw)"
    and "\<not> MatchString StartDiskDataBaseRegex (TrimSpace raw)"
  shows "(ExtentRegex_matches (TrimSpace raw) \<longrightarrow>
            (\<forall>st'. process_line sc opener (''Extents'', res) raw = Inr st' \<longrightarrow>
                fst st' = ''Extents'' \<and> (\<exists>e. ctx_extents (snd st') = ctx_extents res @ [e])))
       \<and> (\<not> ExtentRegex_matches (TrimSpace raw) \<longrightarrow>
            process_line sc opener (''Extents'', res) raw = Inr ([], res))"
proof (cases "FindStringSubmatch (TrimSpace raw)")
  case None
  then have "\<not> ExtentRegex_matches (TrimSpace raw)"
    by (simp add: FindStringSubmatch_None_iff)
  with None show ?thesis
    by (simp add: process_line_Extents_unfold [OF assms])
next
  case (Some m)
  then have "ExtentRegex_matches (TrimSpace raw)"
    using FindStringSubmatch_iff [of "TrimSpace raw"] by blast
  with Some show ?thesis
    by (auto simp: process_line_Extents_unfold [OF assms] split: sum.splits prod.splits if_splits)
qed


lemmas line_eval = process_line_def MatchString_def HasPrefix_def
  StartDescriptorRegex_def StartExtentRegex_def StartDiskDataBaseRegex_def TrimSpace_def
  strip_runes.simps White_Space_def ExtentRegex_at_def ExtentRegex_fields_def is_digit_def
  is_upper_def quote_def newline_def ParseInt_def strconv_ParseInt_def digit_value_def
  GetFlatExtent_def SECTOR_SIZE_def Let_def FlatExtent_TotalSize_def FlatExtent_VirtualOffset_def

lemma leading_char_line:
  "TrimSpace line_leading_char = line_leading_char"
  "\<not> MatchString StartDescriptorRegex line_leading_char"
  "\<not> MatchString StartExtentRegex line_leading_char"
  "\<not> MatchString StartDiskDataBaseRegex line_leading_char"
  "FindStringSubmatch line_leading_char =
     Some [''RW 1 FLAT '' @ [quote] @ ''a.vmdk'' @ [quote] @ '' 0'',
           ''RW'', ''1'', ''FLAT'', ''a.vmdk'', ''0'']"
  by (simp_all add: line_eval line_leading_char_def)

lemma two_spaces_line:
  "TrimSpace line_two_spaces = line_two_spaces"
  "\<not> MatchString StartDescriptorRegex line_two_spaces"
  "\<not> MatchString StartExtentRegex line_two_spaces"
  "\<not> MatchString StartDiskDataBaseRegex line_two_spaces"
  "FindStringSubmatch line_two_spaces = None"
  by (simp_all add: line_eval line_two_spaces_def)

lemma leading_char_step:
  "process_line no_sparse opener_A (''Extents'', empty_context) line_leading_char
     = Inr (''Extents'', one_flat_context)"
  by (simp add: line_eval line_leading_char_def empty_context_def one_flat_context_def opener_A_def)

theorem process_line_Extents_regex_witness:
  "ExtentRegex_matches line_leading_char
   \<and> process_line no_sparse opener_A (''Extents'', empty_context) line_leading_char
       = Inr (''Extents'', one_flat_context)
   \<and> ctx_extents one_flat_context = ctx_extents empty_context @ [hd (ctx_extents one_flat_context)]
   \<and> \<not> ExtentRegex_matches line_two_spaces
   \<and> process_line no_sparse opener_A (''Extents'', empty_context) line_two_spaces
       = Inr ([], empty_context)"
proof -
  have m: "ExtentRegex_matches line_leading_char"
    using FindStringSubmatch_iff [of line_leading_char] leading_char_line(5) by simp
  have n: "\<not> ExtentRegex_matches line_two_spaces"
    using FindStringSubmatch_None_iff [of line_two_spaces] two_spaces_line(5) by simp
  have "process_line no_sparse opener_A (''Extents'', empty_context) line_two_spaces
          = Inr ([], empty_context)"
    using process_line_Extents_regex [of line_two_spaces no_sparse opener_A empty_context]
      two_spaces_line n by simp
  moreover have "ctx_extents one_flat_context
                   = ctx_extents empty_context @ [hd (ctx_extents one_flat_context)]"
    by (simp add: one_flat_context_def empty_context_def)
  ultimately show ?thesis using m n leading_char_step by simp
qed

text \<open>
  Against the regex of the spec: a line with a character before \<open>RW\<close> is no match for the
  anchored regex, and the code appends its extent; a line with two spaces after \<open>RW\<close> is
  a match for the regex with \<open>\s+\<close>, and the code leaves the \<open>Extents\<close> state on it.
\<close>

theorem process_line_Extents_not_spec_regex:
  "\<not> spec_ExtentRegex_matches line_leading_char
   \<and> process_line no_sparse opener_A (''Extents'', empty_context) line_leading_char
       = Inr (''Extents'', one_flat_context)
   \<and> spec_ExtentRegex_matches line_two_spaces
   \<and> process_line no_sparse opener_A (''Extents'', empty_context) line_two_spaces
       = Inr ([], empty_context)"
proof -
  have "\<not> spec_ExtentRegex_matches line_leading_char"
    by (simp add: spec_ExtentRegex_matches_def line_leading_char_def HasPrefix_def)
  moreover have "spec_ExtentRegex_matches line_two_spaces"
    by (simp add: spec_ExtentRegex_matches_def line_two_spaces_def HasPrefix_def Let_def
        is_regex_space_def is_digit_def is_upper_def quote_def)
  moreover have "process_line no_sparse opener_A (''Extents'', empty_context) line_two_spaces
          = Inr ([], empty_context)"
    by (simp add: line_eval line_two_spaces_def)
  ultimately show ?thesis using leading_char_step by simp
qed

section \<open>Extent kinds\<close>

text \<open>
  The kinds in \<open>parser/context.go\<close>.  For an extent line whose file opens: the kind \<open>FLAT\<close>,
  with a sector count \<open>S\<close> and a sector offset \<open>B\<close> that parse, appends a flat extent of
  \<open>S * 512\<close> bytes, based at byte \<open>B * 512\<close> of its file, at the virtual offset that is the
  running \<open>total_size\<close>, and adds its size to \<open>total_size\<close>; every kind other than
  \<open>SPARSE\<close> and \<open>FLAT\<close>, \<open>VMFS\<close> among them, fails with the unsupported-extent-type error.
\<close>

theorem process_line_extent_kinds:
  assumes "\<not> MatchString StartDescriptorRegex (TrimSpace raw)"
    and "\<not> MatchString StartExtentRegex (TrimSpace raw)"
    and "\<not> MatchString StartDiskDataBaseRegex (TrimSpace raw)"
    and "FindStringSubmatch (TrimSpace raw) = Some m"
    and "opener (m ! 4) = Inr (rd, cl)"
  shows "(m ! 3 = ''FLAT'' \<and> strconv_ParseInt (m ! 2) = Some S \<and> strconv_ParseInt (m ! 5) = Some B
            \<longrightarrow> process_line sc opener (''Extents'', res) raw =
                  Inr (''Extents'',
                       res\<lparr> ctx_total_size := ctx_total_size res + S * 512,
                             ctx_extents := ctx_extents res @
                               [Flat \<lparr> fe_reader = rd,
                                       fe_header = \<lparr> Reader = rd, Offset = B * 512 \<rparr>,
                                       fe_total_size = S * 512,
                                       fe_offset = ctx_total_size res,
                                       fe_filename = m ! 4,
                                       fe_closer = cl \<rparr>] \<rparr>))
       \<and> (m ! 3 \<noteq> ''SPARSE'' \<and> m ! 3 \<noteq> ''FLAT''
            \<longrightarrow> process_line sc opener (''Extents'', res) raw =
                  Inl (Error (ErrorString (''Unsupported extent type '' @ m ! 3))))"
  using assms(4,5)
  by (simp add: process_line_Extents_unfold [OF assms(1,2,3)] ParseInt_def GetFlatExtent_def
      SECTOR_SIZE_def FlatExtent_TotalSize_def Let_def)

lemma flat_b_line:
  "TrimSpace line_flat_b = line_flat_b"
  "\<not> MatchString StartDescriptorRegex line_flat_b"
  "\<not> MatchString StartExtentRegex line_flat_b"
  "\<not> MatchString StartDiskDataBaseRegex line_flat_b"
  "FindStringSubmatch line_flat_b =
     Some [line_flat_b, ''RW'', ''2'', ''FLAT'', ''b.vmdk'', ''3'']"
  by (simp_all add: line_eval line_flat_b_def)

lemma vmfs_line:
  "TrimSpace line_vmfs = line_vmfs"
  "\<not> MatchString StartDescriptorRegex line_vmfs"
  "\<not> MatchString StartExtentRegex line_vmfs"
  "\<not> MatchString StartDiskDataBaseRegex line_vmfs"
  "FindStringSubmatch line_vmfs =
     Some [line_vmfs, ''RW'', ''1'', ''VMFS'', ''a.vmdk'', ''0'']"
  by (simp_all add: line_eval line_vmfs_def)

lemma parse_small: "strconv_ParseInt ''2'' = Some 2" "strconv_ParseInt ''3'' = Some 3"
  by (simp_all add: strconv_ParseInt_def is_digit_def digit_value_def)

theorem process_line_extent_kinds_witness:
  "process_line no_sparse opener_A (''Extents'', one_flat_context) line_flat_b =
     Inr (''Extents'',
          one_flat_context\<lparr> ctx_total_size := 1536,
                ctx_extents := ctx_extents one_flat_context @
                  [Flat \<lparr> fe_reader = reader_A,
                          fe_header = \<lparr> Reader = reader_A, Offset = 1536 \<rparr>,
                          fe_total_size = 1024,
                          fe_offset = 512,
                          fe_filename = ''b.vmdk'',
                          fe_closer = Some 2 \<rparr>] \<rparr>)
   \<and> process_line no_sparse opener_A (''Extents'', one_flat_context) line_vmfs =
       Inl (Error (ErrorString ''Unsupported extent type VMFS''))"
proof -
  have o: "opener_A (''b.vmdk'') = Inr (reader_A, Some 2)"
          "opener_A (''a.vmdk'') = Inr (reader_A, Some 1)"
    by (simp_all add: opener_A_def)
  have t: "ctx_total_size one_flat_context = 512" by (simp add: one_flat_context_def)
  show ?thesis
    using process_line_extent_kinds [of line_flat_b
             "[line_flat_b, ''RW'', ''2'', ''FLAT'', ''b.vmdk'', ''3'']" opener_A reader_A "Some 2"
             2 3 no_sparse one_flat_context]
      process_line_extent_kinds [of line_vmfs
             "[line_vmfs, ''RW'', ''1'', ''VMFS'', ''a.vmdk'', ''0'']" opener_A reader_A "Some 1"
             0 0 no_sparse one_flat_context]
      flat_b_line vmfs_line o parse_small t
    by simp
qed

text \<open>Opening a descriptor with one extent of kind \<open>VMFS\<close> fails.\<close>

theorem GetVMDKContext_rejects_VMFS:
  "GetVMDKContext no_sparse (descriptor_reader vmfs_descriptor) 200 opener_A
     = Inl (Error (ErrorString ''Unsupported extent type VMFS''))"
  by (simp add: open_eval vmfs_descriptor_def descriptor_reader_def opener_A_def)

section \<open>Numbers of an extent line\<close>

text \<open>
  C4, as \<open>parser/context.go\<close> has it.  For an extent line whose file opens: with the kind
  \<open>FLAT\<close>, a sector count that \<open>strconv.ParseInt\<close> refuses makes \<open>ParseInt\<close> panic with the
  text of the count, and so does, after a good count, a sector offset that it refuses;
  with the kind \<open>SPARSE\<close> neither number is parsed and the extent is appended.  No error
  value comes back for a number.
\<close>

theorem process_line_bad_integer:
  assumes "\<not> MatchString StartDescriptorRegex (TrimSpace raw)"
    and "\<not> MatchString StartExtentRegex (TrimSpace raw)"
    and "\<not> MatchString StartDiskDataBaseRegex (TrimSpace raw)"
    and "FindStringSubmatch (TrimSpace raw) = Some m"
    and "opener (m ! 4) = Inr (rd, cl)"
  shows "(m ! 3 = ''FLAT'' \<and> strconv_ParseInt (m ! 2) = None
            \<longrightarrow> process_line sc opener (''Extents'', res) raw
                  = Inl (Panic (InvalidInteger (m ! 2))))
       \<and> (m ! 3 = ''FLAT'' \<and> strconv_ParseInt (m ! 2) = Some S \<and> strconv_ParseInt (m ! 5) = None
            \<longrightarrow> process_line sc opener (''Extents'', res) raw
                  = Inl (Panic (InvalidInteger (m ! 5))))
       \<and> (m ! 3 = ''SPARSE'' \<and> GetSparseExtent sc rd = Inr e
            \<longrightarrow> process_line sc opener (''Extents'', res) raw
                  = Inr (''Extents'',
                         res\<lparr> ctx_total_size := ctx_total_size res + se_total_size e,
                               ctx_extents := ctx_extents res @
                                 [Sparse (e\<lparr> se_offset := ctx_total_size res,
                                            se_closer := cl,
                                            se_filename := m ! 4 \<rparr>)] \<rparr>))"
  using assms(4,5)
  by (simp add: process_line_Extents_unfold [OF assms(1,2,3)] ParseInt_def)

lemma big_count_line:
  "TrimSpace line_big_count = line_big_count"
  "\<not> MatchString StartDescriptorRegex line_big_count"
  "\<not> MatchString StartExtentRegex line_big_count"
  "\<not> MatchString StartDiskDataBaseRegex line_big_count"
  "FindStringSubmatch line_big_count =
     Some [line_big_count, ''RW'', ''9223372036854775808'', ''FLAT'', ''a.vmdk'', ''0'']"
  by (simp_all add: line_eval line_big_count_def)

lemma big_offset_line:
  "TrimSpace line_big_offset = line_big_offset"
  "\<not> MatchString StartDescriptorRegex line_big_offset"
  "\<not> MatchString StartExtentRegex line_big_offset"
  "\<not> MatchString StartDiskDataBaseRegex line_big_offset"
  "FindStringSubmatch line_big_offset =
     Some [line_big_offset, ''RW'', ''1'', ''FLAT'', ''a.vmdk'', ''9223372036854775808'']"
  by (simp_all add: line_eval line_big_offset_def)

lemma parse_big:
  "strconv_ParseInt ''9223372036854775808'' = None" "strconv_ParseInt ''1'' = Some 1"
  by (simp_all add: strconv_ParseInt_def is_digit_def digit_value_def)

theorem process_line_bad_integer_witness:
  "process_line no_sparse opener_A (''Extents'', empty_context) line_big_count
     = Inl (Panic (InvalidInteger ''9223372036854775808''))
   \<and> process_line no_sparse opener_A (''Extents'', empty_context) line_big_offset
     = Inl (Panic (InvalidInteger ''9223372036854775808''))"
proof -
  have o: "opener_A (''a.vmdk'') = Inr (reader_A, Some 1)"
    by (simp add: opener_A_def)
  show ?thesis
    using process_line_bad_integer [where raw = line_big_count
             and m = "[line_big_count, ''RW'', ''9223372036854775808'', ''FLAT'', ''a.vmdk'', ''0'']"
             and opener = opener_A and rd = reader_A and cl = "Some 1" and sc = no_sparse
             and res = empty_context]
      process_line_bad_integer [where raw = line_big_offset
             and m = "[line_big_offset, ''RW'', ''1'', ''FLAT'', ''a.vmdk'', ''9223372036854775808'']"
             and opener = opener_A and rd = reader_A and cl = "Some 1" and sc = no_sparse
             and res = empty_context and S = 1]
      big_count_line big_offset_line o parse_big
    by simp
qed

text \<open>Opening a descriptor whose sector count is \<open>2 ^ 63\<close> panics.\<close>

theorem GetVMDKContext_bad_integer_panics:
  "GetVMDKContext no_sparse (descriptor_reader big_count_descriptor) 200 opener_A
     = Inl (Panic (InvalidInteger ''9223372036854775808''))"
  by (simp add: open_eval big_count_descriptor_def descriptor_reader_def opener_A_def)

section \<open>The magic-number check\<close>

text \<open>
  C10, as the code has it.  A negative size panics in \<open>make\<close>.  With a size from 0 to 3,
  when the read of the primary reader gives no error or \<open>EOF\<close>, \<open>buf[0:4]\<close> panics.  When
  that read gives another error, \<open>GetVMDKContext\<close> returns it before the check, whatever
  the size.  A context comes back only for a size of 4 or more.
\<close>

theorem GetVMDKContext_small_size:
  "(size0 < 0 \<longrightarrow> GetVMDKContext sc reader size0 opener = Inl (Panic MakeSliceLenOutOfRange))
   \<and> (0 \<le> size0 \<and> size0 < 4 \<and> (snd (reader (nat size0) 0) = None \<or> snd (reader (nat size0) 0) = Some EOF)
        \<longrightarrow> GetVMDKContext sc reader size0 opener = Inl (Panic SliceBoundsOutOfRange))
   \<and> (0 \<le> size0 \<and> snd (reader (nat (min size0 65536)) 0) = Some e \<and> e \<noteq> EOF
        \<longrightarrow> GetVMDKContext sc reader size0 opener = Inl (Error e))
   \<and> (\<forall>ctx. GetVMDKContext sc reader size0 opener = Inr ctx \<longrightarrow> 4 \<le> size0)"
proof (intro conjI impI allI)
  assume "size0 < 0"
  then show "GetVMDKContext sc reader size0 opener = Inl (Panic MakeSliceLenOutOfRange)"
    by (simp add: GetVMDKContext_def)
next
  assume a: "0 \<le> size0 \<and> size0 < 4 \<and> (snd (reader (nat size0) 0) = None \<or> snd (reader (nat size0) 0) = Some EOF)"
  then show "GetVMDKContext sc reader size0 opener = Inl (Panic SliceBoundsOutOfRange)"
    by (cases "reader (nat size0) 0") (auto simp: GetVMDKContext_def call_ReadAt_def Let_def)
next
  assume a: "0 \<le> size0 \<and> snd (reader (nat (min size0 65536)) 0) = Some e \<and> e \<noteq> EOF"
  then show "GetVMDKContext sc reader size0 opener = Inl (Error e)"
    by (cases "reader (nat (min size0 65536)) 0")
      (auto simp: GetVMDKContext_def call_ReadAt_def Let_def min_def)
next
  fix ctx assume "GetVMDKContext sc reader size0 opener = Inr ctx"
  then show "4 \<le> size0"
    by (cases "reader (nat size0) 0")
      (auto simp: GetVMDKContext_def call_ReadAt_def Let_def split: if_splits sum.splits prod.splits)
qed

theorem GetVMDKContext_small_size_witness:
  "GetVMDKContext no_sparse empty_reader (- 1) opener_A = Inl (Panic MakeSliceLenOutOfRange)
   \<and> GetVMDKContext no_sparse empty_reader 0 opener_A = Inl (Panic SliceBoundsOutOfRange)
   \<and> GetVMDKContext no_sparse (descriptor_reader ''abc'') 3 opener_A = Inl (Panic SliceBoundsOutOfRange)
   \<and> GetVMDKContext no_sparse failing_reader 3 opener_A = Inl (Error (ErrorString ''input/output error''))
   \<and> GetVMDKContext no_sparse (descriptor_reader two_flat_descriptor) 200 opener_A = Inr two_flat_context
   \<and> (4 :: int) \<le> 200"
proof -
  have r: "snd (empty_reader (nat 0) 0) = Some EOF"
    "snd (descriptor_reader ''abc'' (nat 3) 0) = Some EOF"
    "snd (failing_reader (nat (min 3 65536)) 0) = Some (ErrorString ''input/output error'')"
    by (simp_all add: empty_reader_def descriptor_reader_def failing_reader_def)
  show ?thesis
    using GetVMDKContext_small_size [of "- 1" no_sparse empty_reader opener_A]
      GetVMDKContext_small_size [of 0 no_sparse empty_reader opener_A]
      GetVMDKContext_small_size [of 3 no_sparse "descriptor_reader ''abc''" opener_A]
      GetVMDKContext_small_size [of 3 no_sparse failing_reader opener_A "ErrorString ''input/output error''"]
      GetVMDKContext_small_size [of 200 no_sparse "descriptor_reader two_flat_descriptor" opener_A]
      r two_flat_open
    by simp
qed

text \<open>With a size of 0 and a primary reader that fails, the call returns the error.\<close>

theorem GetVMDKContext_reader_error_first:
  "GetVMDKContext no_sparse failing_reader 0 opener_A
     = Inl (Error (ErrorString ''input/output error''))"
  by (simp add: GetVMDKContext_def call_ReadAt_def failing_reader_def)

section \<open>The other GetVMDKContext: kinds and numbers\<close>

text \<open>
  In the \<open>GetVMDKContext\<close> of \<open>src/unnamed/part_000\<close> the kinds \<open>FLAT\<close> and \<open>VMFS\<close> build the
  same flat extent, the sector offset being 0 when the line has none, and a number
  that does not parse is returned as an error.
\<close>

lemma process_line_part_000_flat_kinds:
  assumes "\<not> MatchString StartExtentRegex line"
    and "FindStringSubmatch line = Some m"
    and "m ! 3 = ''FLAT'' \<or> m ! 3 = ''VMFS''"
    and "strconv_ParseInt (m ! 2) = Some S"
    and "m ! 5 = [] \<and> B = 0 \<or> strconv_ParseInt (m ! 5) = Some B"
    and "opener (m ! 4) = Inr (rd, cl)"
  shows "process_line_part_000 sc opener (''Extents'', res) line =
           Inr (''Extents'',
                res\<lparr> ctx_total_size := ctx_total_size res + S * 512,
                      ctx_extents := ctx_extents res @
                        [Flat \<lparr> fe_reader = rd,
                                fe_header = \<lparr> Reader = rd, Offset = B * 512 \<rparr>,
                                fe_total_size = S * 512,
                                fe_offset = ctx_total_size res,
                                fe_filename = m ! 4,
                                fe_closer = cl \<rparr>] \<rparr>)"
proof -
  have six: "length m = 6"
    using FindStringSubmatch_at [OF assms(2)] ExtentRegex_at_sound by blast
  have "strconv_ParseInt [] = None" by (simp add: strconv_ParseInt_def)
  with assms six show ?thesis
    by (auto simp: process_line_part_000_def parseInt_def GetFlatExtent_def SECTOR_SIZE_def
        FlatExtent_TotalSize_def Let_def)
qed

lemma process_line_part_000_bad_integer:
  assumes "\<not> MatchString StartExtentRegex line"
    and "FindStringSubmatch line = Some m"
    and "strconv_ParseInt (m ! 2) = None"
  shows "process_line_part_000 sc opener (''Extents'', res) line = Inl (Error (NumError (m ! 2)))"
  using assms by (simp add: process_line_part_000_def parseInt_def)

lemma GetVMDKContext_part_000_VMFS:
  "GetVMDKContext_part_000 no_sparse (descriptor_reader vmfs_descriptor) 200 opener_A
     = Inr (one_flat_context\<lparr> ctx_reader := descriptor_reader vmfs_descriptor \<rparr>)"
  by (simp add: GetVMDKContext_part_000_def process_line_part_000_def parseInt_def
      call_ReadAt_def MatchString_def HasPrefix_def StartExtentRegex_def
      ExtentRegex_at_def ExtentRegex_fields_def is_digit_def is_upper_def quote_def newline_def
      strconv_ParseInt_def digit_value_def GetFlatExtent_def SECTOR_SIZE_def
      normalizeExtents_def Let_def FlatExtent_TotalSize_def FlatExtent_VirtualOffset_def
      vmfs_descriptor_def descriptor_reader_def opener_A_def one_flat_context_def)

lemma GetVMDKContext_part_000_bad_integer:
  "GetVMDKContext_part_000 no_sparse (descriptor_reader big_count_descriptor) 200 opener_A
     = Inl (Error (NumError ''9223372036854775808''))"
  by (simp add: GetVMDKContext_part_000_def process_line_part_000_def parseInt_def
      call_ReadAt_def MatchString_def HasPrefix_def StartExtentRegex_def
      ExtentRegex_at_def ExtentRegex_fields_def is_digit_def is_upper_def quote_def newline_def
      strconv_ParseInt_def digit_value_def Let_def
      big_count_descriptor_def descriptor_reader_def opener_A_def)





end
